theory Spec2Isabelle
  imports Complex_Main "HOL-Library.Multiset"
begin

section \<open>JavaScript errors\<close>

text \<open>
  A thrown value is an instance of a class. The classes the service throws are
  \<^verbatim>\<open>Error\<close> and classes that extend it (\<^verbatim>\<open>TypeError\<close>, \<^verbatim>\<open>RangeError\<close>, and
  \<^verbatim>\<open>NoSuitableRatesError\<close> of rules.js); a class is \<^verbatim>\<open>Error\<close> or a named class
  with its parent.
\<close>

datatype js_class = Error | Extends string js_class

abbreviation TypeError :: js_class where
  "TypeError \<equiv> Extends ''TypeError'' Error"

abbreviation RangeError :: js_class where
  "RangeError \<equiv> Extends ''RangeError'' Error"

abbreviation NoSuitableRatesError :: js_class where
  "NoSuitableRatesError \<equiv> Extends ''NoSuitableRatesError'' Error"

datatype js_error = Thrown (constructor: js_class) (message: string)

text \<open>\<^verbatim>\<open>error instanceof ErrorType\<close>: the class of the error or one of its ancestors.\<close>

fun subclass_of :: "js_class \<Rightarrow> js_class \<Rightarrow> bool" where
  "subclass_of Error t = (t = Error)"
| "subclass_of (Extends n p) t = (t = Extends n p \<or> subclass_of p t)"

definition instanceof :: "js_error \<Rightarrow> js_class \<Rightarrow> bool" where
  "instanceof error t = subclass_of (constructor error) t"

section \<open>Rate selection (rules.js)\<close>

text \<open>
  An EasyPost rate. \<^verbatim>\<open>rate\<close> is a decimal string in the response; the field holds
  the number \<^verbatim>\<open>$number(rate)\<close> makes of it, the only way rules.js reads it.
\<close>

record quote =
  quote_id :: string
  carrier :: string
  service :: string
  rate :: real
  delivery_days :: int

text \<open>
  The shipment EasyPost returns. \<^verbatim>\<open>rates\<close> is \<open>None\<close> when the response has no
  rates property.
\<close>

record easypost_shipment =
  shipment_id :: string
  rates :: "quote list option"
  usps_zone :: int

text \<open>
  \<^verbatim>\<open>$sort(array, function($l, $r) {...})\<close> of the JSONata library: a merge sort in
  which the comparator answers whether its first argument is to be placed after its
  second.
\<close>

fun merge_iter :: "('a \<Rightarrow> 'a \<Rightarrow> bool) \<Rightarrow> 'a list \<Rightarrow> 'a list \<Rightarrow> 'a list" where
  "merge_iter comparator [] right = right"
| "merge_iter comparator left [] = left"
| "merge_iter comparator (l # left) (r # right) =
     (if comparator l r then r # merge_iter comparator (l # left) right
      else l # merge_iter comparator left (r # right))"

function msort :: "('a \<Rightarrow> 'a \<Rightarrow> bool) \<Rightarrow> 'a list \<Rightarrow> 'a list" where
  "msort comparator array =
     (if length array \<le> 1 then array
      else let middle = length array div 2
           in merge_iter comparator (msort comparator (take middle array))
                (msort comparator (drop middle array)))"
  by pat_completeness auto
termination
  by (relation "measure (\<lambda>(comparator, array). length array)") auto

declare msort.simps [simp del]

text \<open>The comparator of rules.js: \<^verbatim>\<open>$number($l.rate) > $number($r.rate)\<close>.\<close>

definition dearer :: "quote \<Rightarrow> quote \<Rightarrow> bool" where
  "dearer l r = (rate l > rate r)"

text \<open>
  \<^verbatim>\<open>$[delivery_days<=2] ~> $sort(...)\<close> evaluated on the rates: \<^verbatim>\<open>undefined\<close>
  (\<open>None\<close>) when nothing passes the filter or there is no input, the sorted
  array otherwise.
\<close>

definition ratesFor2DaysOrLess :: "quote list option \<Rightarrow> quote list option" where
  "ratesFor2DaysOrLess rs =
     (case rs of
        None \<Rightarrow> None
      | Some qs \<Rightarrow>
          (case filter (\<lambda>q. delivery_days q \<le> 2) qs of
             [] \<Rightarrow> None
           | e # es \<Rightarrow> Some (msort dearer (e # es))))"

text \<open>\<^verbatim>\<open>xs?.[0]?.id\<close>: \<open>None\<close> is \<^verbatim>\<open>undefined\<close>.\<close>

definition first_id :: "quote list \<Rightarrow> string option" where
  "first_id xs = (case xs of [] \<Rightarrow> None | q # _ \<Rightarrow> Some (quote_id q))"

text \<open>The value of \<^verbatim>\<open>chosenRate\<close> once the zone rule has been applied.\<close>

definition chosenRate :: "int \<Rightarrow> quote list \<Rightarrow> string option" where
  "chosenRate zone sorted_rates =
     (if zone > 2
      then first_id (filter (\<lambda>q. carrier q \<noteq> ''USPS'') sorted_rates)
      else first_id sorted_rates)"

text \<open>The default export of rules.js.\<close>

definition rules :: "easypost_shipment \<Rightarrow> js_error + string" where
  "rules easypostShipment =
     (if rates easypostShipment = Some []
      then Inl (Thrown NoSuitableRatesError ''Easypost shipment returned zero rates'')
      else case ratesFor2DaysOrLess (rates easypostShipment) of
             None \<Rightarrow> Inl (Thrown NoSuitableRatesError ''No rates for 2 days or less'')
           | Some sorted_rates \<Rightarrow>
               (case chosenRate (usps_zone easypostShipment) sorted_rates of
                  None \<Rightarrow> Inl (Thrown NoSuitableRatesError ''chosenRate: undefined'')
                | Some rate_id \<Rightarrow> Inr rate_id))"

section \<open>Double arithmetic\<close>

text \<open>
  JavaScript numbers are IEEE 754 doubles: \<^verbatim>\<open>+\<close>, \<^verbatim>\<open>-\<close>, \<^verbatim>\<open>*\<close> and \<^verbatim>\<open>/\<close> give the exact
  result rounded to the nearest double, a tie going to the even one. \<open>fl64\<close> is that
  rounding on the reals: 53 binary digits, the subnormal numbers at the lower end of
  the exponent range; results too large for a double are not modelled. Comparisons,
  \<^verbatim>\<open>Math.min\<close> and \<^verbatim>\<open>Math.max\<close> are exact.
\<close>

definition round_even :: "real \<Rightarrow> int" where
  "round_even y =
     (if y - of_int \<lfloor>y\<rfloor> < 1 / 2 then \<lfloor>y\<rfloor>
      else if y - of_int \<lfloor>y\<rfloor> > 1 / 2 then \<lfloor>y\<rfloor> + 1
      else if even \<lfloor>y\<rfloor> then \<lfloor>y\<rfloor> else \<lfloor>y\<rfloor> + 1)"

text \<open>The exponent of the unit in the last place of the doubles around \<open>x\<close>.\<close>

definition ulp_exponent :: "real \<Rightarrow> int" where
  "ulp_exponent x = max \<lfloor>log 2 \<bar>x\<bar>\<rfloor> (- 1022) - 52"

definition fl64 :: "real \<Rightarrow> real" where
  "fl64 x =
     (if x = 0 then 0
      else of_int (round_even (x / 2 powi ulp_exponent x)) * 2 powi ulp_exponent x)"

text \<open>
  \<^verbatim>\<open>Math.pow\<close> is left to the engine by the language. A run takes it, like the rounding
  of the arithmetic, from its engine; \<open>rounded_pow\<close> is a \<^verbatim>\<open>Math.pow\<close> that rounds the
  exact power.
\<close>

definition rounded_pow :: "real \<Rightarrow> nat \<Rightarrow> real" where
  "rounded_pow b k = fl64 (b ^ k)"

section \<open>The retry utility (utils/retry.js)\<close>

text \<open>
  \<^verbatim>\<open>maxRetries\<close> and \<^verbatim>\<open>retryInterval\<close> reach \<^verbatim>\<open>retry\<close> as numbers (its tests) or as
  strings (index.js passes \<^verbatim>\<open>Bun.env\<close> values). A string is kept as the number that
  JavaScript converts it to; strings that convert to no number are left out.
\<close>

datatype js_numeric = Number real | NumericString real

text \<open>The conversion of \<^verbatim>\<open><\<close>, \<^verbatim>\<open><=\<close>, \<^verbatim>\<open>*\<close> and \<^verbatim>\<open>Math.min\<close>.\<close>

fun to_number :: "js_numeric \<Rightarrow> real" where
  "to_number (Number x) = x"
| "to_number (NumericString x) = x"

text \<open>\<^verbatim>\<open>attempt === maxRetries\<close>: no conversion, a number never equals a string.\<close>

fun strictly_equals :: "real \<Rightarrow> js_numeric \<Rightarrow> bool" where
  "strictly_equals a (Number x) = (a = x)"
| "strictly_equals a (NumericString x) = False"

text \<open>The options object; \<open>None\<close> is a property left out.\<close>

record options =
  backoff :: "bool option"
  backoffMultiplier :: "real option"
  retryInterval :: "js_numeric option"
  maxRetries :: "js_numeric option"
  jitter :: "real option"
  maxDelay :: "real option"
  timeout :: "real option"

text \<open>The destructuring of the options with its defaults.\<close>

definition opt_backoff :: "options \<Rightarrow> bool" where
  "opt_backoff options = (case backoff options of None \<Rightarrow> True | Some v \<Rightarrow> v)"

definition opt_backoffMultiplier :: "options \<Rightarrow> real" where
  "opt_backoffMultiplier options = (case backoffMultiplier options of None \<Rightarrow> 2 | Some v \<Rightarrow> v)"

definition opt_retryInterval :: "options \<Rightarrow> js_numeric" where
  "opt_retryInterval options = (case retryInterval options of None \<Rightarrow> Number 1000 | Some v \<Rightarrow> v)"

definition opt_maxRetries :: "options \<Rightarrow> js_numeric" where
  "opt_maxRetries options = (case maxRetries options of None \<Rightarrow> Number 3 | Some v \<Rightarrow> v)"

definition opt_jitter :: "options \<Rightarrow> real" where
  "opt_jitter options = (case jitter options of None \<Rightarrow> 1 | Some v \<Rightarrow> v)"

definition opt_maxDelay :: "options \<Rightarrow> real" where
  "opt_maxDelay options = (case maxDelay options of None \<Rightarrow> 30000 | Some v \<Rightarrow> v)"

definition opt_timeout :: "options \<Rightarrow> real" where
  "opt_timeout options = (case timeout options of None \<Rightarrow> 0 | Some v \<Rightarrow> v)"

text \<open>
  An asynchronous operation over a state \<open>'s\<close> that it reads and writes: how the call
  settles (\<open>Inl\<close> a rejection), the milliseconds it takes, and the state it leaves.
\<close>

type_synonym ('s, 'a) async_fn = "'s \<Rightarrow> (js_error + 'a) \<times> real \<times> 's"

text \<open>The first two arguments of \<^verbatim>\<open>retry\<close>, which it checks by type.\<close>

datatype ('s, 'a) asyncFn_arg = Function "('s, 'a) async_fn" | NotAFunction

datatype ErrorTypes_arg = Array "js_class list" | NotAnArray

text \<open>
  What a run of \<^verbatim>\<open>retry\<close> has done so far: the state of the operation, the number
  of calls of \<^verbatim>\<open>asyncFn\<close>, the delays given to \<^verbatim>\<open>setTimeout\<close> for the waits, and
  the number of values taken from \<^verbatim>\<open>Math.random\<close>, whose \<open>k\<close>-th value is
  \<open>math_random k\<close>. The last two fields are the engine's \<^verbatim>\<open>Math.pow\<close>, for exponents
  that are natural numbers, and the rounding of its arithmetic.
\<close>

record 's run =
  state :: 's
  invocations :: nat
  timers :: "real list"
  math_random :: "nat \<Rightarrow> real"
  drawn :: nat
  math_pow :: "real \<Rightarrow> nat \<Rightarrow> real"
  rounding :: "real \<Rightarrow> real"

text \<open>
  \<^verbatim>\<open>Promise.race\<close> of the call against the timer: the timer wins when the call takes
  longer than the timeout. The state the call leaves is kept either way.
\<close>

definition race :: "real \<Rightarrow> (js_error + 'a) \<Rightarrow> real \<Rightarrow> js_error + 'a" where
  "race ms outcome elapsed =
     (if ms < elapsed then Inl (Thrown Error ''Operation timed out'') else outcome)"

definition shouldRetry :: "js_class list \<Rightarrow> js_error \<Rightarrow> bool" where
  "shouldRetry ErrorTypes error =
     (length ErrorTypes = 0 \<or>
      list_ex (\<lambda>ErrorType. instanceof error ErrorType \<or> constructor error = ErrorType) ErrorTypes)"

text \<open>The delay before jitter, for the value \<^verbatim>\<open>attempt\<close> has after its increment.\<close>

definition capped_delay ::
  "(real \<Rightarrow> real) \<Rightarrow> (real \<Rightarrow> nat \<Rightarrow> real) \<Rightarrow> options \<Rightarrow> nat \<Rightarrow> real" where
  "capped_delay fl pow options attempt =
     min (if opt_backoff options
          then fl (to_number (opt_retryInterval options)
                     * pow (opt_backoffMultiplier options) (attempt - 1))
          else to_number (opt_retryInterval options))
         (opt_maxDelay options)"

text \<open>
  \<^verbatim>\<open>delay + delay * jitter * Math.random() - (delay * jitter) / 2\<close>, each operation
  rounded.
\<close>

definition apply_jitter :: "(real \<Rightarrow> real) \<Rightarrow> real \<Rightarrow> real \<Rightarrow> real \<Rightarrow> real" where
  "apply_jitter fl delay j u =
     fl (fl (delay + fl (fl (delay * j) * u)) - fl (fl (delay * j) / 2))"

text \<open>One turn of the \<^verbatim>\<open>while\<close> loop: the call settles the run, or a wait follows.\<close>

datatype ('s, 'a) turn = Settled "js_error + 'a option" "'s run" | Waited "'s run"

definition attempt_once ::
  "('s, 'a) async_fn \<Rightarrow> js_class list \<Rightarrow> options \<Rightarrow> nat \<Rightarrow> 's run \<Rightarrow> ('s, 'a) turn" where
  "attempt_once asyncFn ErrorTypes options attempt r =
     (case asyncFn (state r) of (outcome, elapsed, s') \<Rightarrow>
        let r1 = r\<lparr>state := s', invocations := Suc (invocations r)\<rparr>;
            result = (if opt_timeout options > 0
                      then race (opt_timeout options) outcome elapsed else outcome)
        in case result of
             Inr v \<Rightarrow> Settled (Inr (Some v)) r1
           | Inl error \<Rightarrow>
               if strictly_equals (real attempt) (opt_maxRetries options)
               then Settled (Inl error) r1
               else if \<not> shouldRetry ErrorTypes error
               then Settled (Inl error) r1
               else let delay = capped_delay (rounding r1) (math_pow r1) options (Suc attempt);
                        r2 = (if opt_jitter options > 0
                              then r1\<lparr>drawn := Suc (drawn r1)\<rparr> else r1);
                        delay' = (if opt_jitter options > 0
                                  then apply_jitter (rounding r1) delay (opt_jitter options)
                                         (math_random r1 (drawn r1))
                                  else delay)
                    in Waited (r2\<lparr>timers := timers r2 @ [max 0 delay']\<rparr>))"

text \<open>
  The loop \<^verbatim>\<open>while (attempt <= maxRetries)\<close>. Falling out of it, the function returns
  \<^verbatim>\<open>undefined\<close>: \<open>Inr None\<close>.
\<close>

function retry_loop ::
  "('s, 'a) async_fn \<Rightarrow> js_class list \<Rightarrow> options \<Rightarrow> nat \<Rightarrow> 's run
     \<Rightarrow> (js_error + 'a option) \<times> 's run" where
  "retry_loop asyncFn ErrorTypes options attempt r =
     (if real attempt \<le> to_number (opt_maxRetries options)
      then (case attempt_once asyncFn ErrorTypes options attempt r of
              Settled result r' \<Rightarrow> (result, r')
            | Waited r' \<Rightarrow> retry_loop asyncFn ErrorTypes options (Suc attempt) r')
      else (Inr None, r))"
  by pat_completeness auto
termination
  apply (relation "measure (\<lambda>(asyncFn, ErrorTypes, options, attempt, r).
          nat \<lfloor>to_number (opt_maxRetries options)\<rfloor> + 1 - attempt)")
   apply simp
  apply (simp add: le_floor_iff)
  apply linarith
  done

declare retry_loop.simps [simp del]

text \<open>The default export of utils/retry.js.\<close>

definition retry ::
  "('s, 'a) asyncFn_arg \<Rightarrow> ErrorTypes_arg \<Rightarrow> options \<Rightarrow> 's run
     \<Rightarrow> (js_error + 'a option) \<times> 's run" where
  "retry asyncFn ErrorTypes options r =
     (case asyncFn of
        NotAFunction \<Rightarrow> (Inl (Thrown TypeError ''asyncFn must be a function''), r)
      | Function f \<Rightarrow>
          (case ErrorTypes of
             NotAnArray \<Rightarrow> (Inl (Thrown TypeError ''ErrorTypes must be an array''), r)
           | Array types \<Rightarrow>
               if opt_jitter options < 0 \<or> opt_jitter options > 1
               then (Inl (Thrown RangeError ''jitter must be between 0 and 1.0''), r)
               else if to_number (opt_maxRetries options) < 0
               then (Inl (Thrown RangeError ''maxRetries must be non-negative''), r)
               else if to_number (opt_retryInterval options) < 0
               then (Inl (Thrown RangeError ''retryInterval must be non-negative''), r)
               else retry_loop f types options 0 r))"

section \<open>Quoting, selection and purchase (index.js)\<close>

text \<open>
  One fulfillment order of \<^verbatim>\<open>purchaseShippingLabelsHandler\<close>, from the retried
  quoting to the call of \<^verbatim>\<open>easypost.buyShipment\<close>. The closure given to \<^verbatim>\<open>retry\<close>
  writes the variable \<^verbatim>\<open>shipmentResponse\<close>; \<open>created\<close> counts the calls of
  \<^verbatim>\<open>easypost.createShipment\<close>, whose \<open>k\<close>-th call settles as \<open>createShipment k\<close>
  says, after the milliseconds it gives.
\<close>

record handler_vars =
  shipmentResponse :: "easypost_shipment option"
  created :: nat

definition quote_and_choose ::
  "(nat \<Rightarrow> (js_error + easypost_shipment) \<times> real) \<Rightarrow> (handler_vars, string) async_fn" where
  "quote_and_choose createShipment vars =
     (case createShipment (created vars) of (response, elapsed) \<Rightarrow>
        (case response of
           Inl e \<Rightarrow> (Inl e, elapsed, vars\<lparr>created := Suc (created vars)\<rparr>)
         | Inr shipment \<Rightarrow>
             let vars' = vars\<lparr>shipmentResponse := Some shipment, created := Suc (created vars)\<rparr>
             in if rates shipment = None
                then (Inl (Thrown Error ''Shipment response from Easypost returned no rates''),
                      elapsed, vars')
                else (rules shipment, elapsed, vars')))"

text \<open>
  The variables of \<^verbatim>\<open>Bun.env\<close> read here. The two numeric ones are strings when set;
  the field holds the number the string converts to.
\<close>

record bun_env =
  SHIPPING_RATE_SEARCH_RETRIES :: "real option"
  SHIPPING_RATE_SEARCH_RETRY_INTERVAL :: "real option"
  SEND_LIVE_EMAILS :: "string option"

definition search_options :: "bun_env \<Rightarrow> options" where
  "search_options env =
     \<lparr>backoff = Some False, backoffMultiplier = None,
      retryInterval = map_option NumericString (SHIPPING_RATE_SEARCH_RETRY_INTERVAL env),
      maxRetries = map_option NumericString (SHIPPING_RATE_SEARCH_RETRIES env),
      jitter = None, maxDelay = None, timeout = None\<rparr>"

text \<open>The \<^verbatim>\<open>await retry(...)\<close> of the handler.\<close>

definition search_rate ::
  "bun_env \<Rightarrow> (nat \<Rightarrow> (js_error + easypost_shipment) \<times> real) \<Rightarrow> handler_vars run
     \<Rightarrow> (js_error + string option) \<times> handler_vars run" where
  "search_rate env createShipment r =
     retry (Function (quote_and_choose createShipment)) (Array [NoSuitableRatesError])
       (search_options env) r"

text \<open>
  The mail to the shop owner: the rates it lists (\<^verbatim>\<open>shipmentResponse?.rates\<close>, \<open>None\<close>
  printing as "No rates available") and the message of the error.
\<close>

record email_message =
  listed_rates :: "quote list option"
  error_line :: string

text \<open>
  What the handler did to the outside: the messages given to \<^verbatim>\<open>mailClient.sendMail\<close>,
  the messages only written to the debug log, and the arguments of the calls of
  \<^verbatim>\<open>easypost.buyShipment\<close>.
\<close>

record effects =
  sent :: "email_message list"
  logged :: "email_message list"
  bought :: "(string \<times> string option) list"

text \<open>
  \<^verbatim>\<open>easypost.buyShipment(shipmentResponse.id, chosenRate.id)\<close>. Reading a property
  of \<^verbatim>\<open>undefined\<close> throws a \<^verbatim>\<open>TypeError\<close> (the message is the engine's); the
  property \<^verbatim>\<open>id\<close> of a string is \<^verbatim>\<open>undefined\<close>.
\<close>

definition buy_step ::
  "string option \<Rightarrow> handler_vars run \<Rightarrow> effects \<Rightarrow> (js_error + unit) \<times> handler_vars run \<times> effects" where
  "buy_step chosen r fx =
     (case shipmentResponse (state r) of
        None \<Rightarrow> (Inl (Thrown TypeError ''undefined is not an object (evaluating shipmentResponse.id)''), r, fx)
      | Some shipment \<Rightarrow>
          (case chosen of
             None \<Rightarrow> (Inl (Thrown TypeError ''undefined is not an object (evaluating chosenRate.id)''), r, fx)
           | Some rate_id \<Rightarrow> (Inr (), r, fx\<lparr>bought := bought fx @ [(shipment_id shipment, None)]\<rparr>)))"

text \<open>The \<^verbatim>\<open>try\<close>, its \<^verbatim>\<open>catch\<close> and the purchase that follows.\<close>

definition purchase_label ::
  "bun_env \<Rightarrow> (nat \<Rightarrow> (js_error + easypost_shipment) \<times> real) \<Rightarrow> (email_message \<Rightarrow> js_error option)
     \<Rightarrow> handler_vars run \<Rightarrow> (js_error + unit) \<times> handler_vars run \<times> effects" where
  "purchase_label env createShipment sendMail r =
     (let fx = \<lparr>sent = [], logged = [], bought = []\<rparr>
      in case search_rate env createShipment r of (result, r') \<Rightarrow>
        (case result of
           Inr chosen \<Rightarrow> buy_step chosen r' fx
         | Inl e \<Rightarrow>
             if instanceof e NoSuitableRatesError
             then let emailMessage =
                        \<lparr>listed_rates = (case shipmentResponse (state r') of
                                           None \<Rightarrow> None | Some shipment \<Rightarrow> rates shipment),
                         error_line = message e\<rparr>
                  in if SEND_LIVE_EMAILS env = Some ''true''
                     then (case sendMail emailMessage of
                             Some mail_error \<Rightarrow> (Inl mail_error, r', fx\<lparr>sent := [emailMessage]\<rparr>)
                           | None \<Rightarrow> (Inl e, r', fx\<lparr>sent := [emailMessage]\<rparr>))
                     else (Inl e, r', fx\<lparr>logged := [emailMessage]\<rparr>)
             else buy_step None r' fx))"

text \<open>
  The variables and the run at the start of a fulfillment order, on an engine whose
  arithmetic rounds to doubles.
\<close>

definition start :: "(nat \<Rightarrow> real) \<Rightarrow> handler_vars run" where
  "start rnd = \<lparr>state = \<lparr>shipmentResponse = None, created = 0\<rparr>, invocations = 0,
                 timers = [], math_random = rnd, drawn = 0,
                 math_pow = rounded_pow, rounding = fl64\<rparr>"

text \<open>The quotes that pass the two tests of rules.js for a zone.\<close>

definition eligible :: "int \<Rightarrow> quote \<Rightarrow> bool" where
  "eligible zone q = (delivery_days q \<le> 2 \<and> (zone > 2 \<longrightarrow> carrier q \<noteq> ''USPS''))"

section \<open>Notions used in the statements\<close>

text \<open>A list of quotes in which no quote is dearer than a later one.\<close>

definition cheaper_first :: "quote list \<Rightarrow> bool" where
  "cheaper_first xs = sorted_wrt (\<lambda>a b. rate a \<le> rate b) xs"

text \<open>How the call of \<open>asyncFn\<close> in state \<open>s\<close> ends for \<^verbatim>\<open>retry\<close>, the timeout applied.\<close>

definition attempt_result :: "options \<Rightarrow> ('s, 'a) async_fn \<Rightarrow> 's \<Rightarrow> js_error + 'a" where
  "attempt_result options asyncFn s =
     (case asyncFn s of (outcome, elapsed, s') \<Rightarrow>
        if opt_timeout options > 0 then race (opt_timeout options) outcome elapsed else outcome)"

definition state_after :: "('s, 'a) async_fn \<Rightarrow> 's \<Rightarrow> 's" where
  "state_after asyncFn s = snd (snd (asyncFn s))"

text \<open>
  The wait after the failed attempt with index \<open>k\<close> (from 0), when \<^verbatim>\<open>Math.random()\<close>
  gives \<open>u\<close>, for an engine's rounding and \<^verbatim>\<open>Math.pow\<close>.
\<close>

definition wait_after ::
  "(real \<Rightarrow> real) \<Rightarrow> (real \<Rightarrow> nat \<Rightarrow> real) \<Rightarrow> options \<Rightarrow> real \<Rightarrow> nat \<Rightarrow> real" where
  "wait_after fl pow options u k =
     max 0 (if opt_jitter options > 0
            then apply_jitter fl (capped_delay fl pow options (Suc k)) (opt_jitter options) u
            else capped_delay fl pow options (Suc k))"

text \<open>
  How the call of the closure that is the \<open>k\<close>-th call of \<^verbatim>\<open>createShipment\<close> settles:
  with the rejection of the service, with the error for a response without rates, or
  as \<open>rules\<close> settles on the response.
\<close>

definition quote_outcome ::
  "(nat \<Rightarrow> (js_error + easypost_shipment) \<times> real) \<Rightarrow> nat \<Rightarrow> js_error + string" where
  "quote_outcome createShipment k =
     fst (quote_and_choose createShipment \<lparr>shipmentResponse = None, created = k\<rparr>)"

section \<open>Sample operations and collaborators\<close>

text \<open>
  An operation that rejects with a \<^verbatim>\<open>NetworkError\<close> on every call, as the failing
  functions of retry.test.js do; its state counts the calls.
\<close>

definition always_fails :: "(nat, string) async_fn" where
  "always_fails s = (Inl (Thrown (Extends ''NetworkError'' Error)
                        (if s = 2 then ''third failure'' else ''earlier failure'')), 5, Suc s)"

text \<open>An operation that rejects with a \<^verbatim>\<open>TimeoutError\<close>, as in retry.test.js.\<close>

definition times_out :: "(nat, string) async_fn" where
  "times_out s = (Inl (Thrown (Extends ''TimeoutError'' Error) ''Request timed out''), 5, Suc s)"

text \<open>
  A quoting service whose every response holds one rate, of five delivery days, and one
  that refuses every connection.
\<close>

definition slow_shipment :: easypost_shipment where
  "slow_shipment =
     \<lparr>shipment_id = ''shp_1'',
      rates = Some [\<lparr>quote_id = ''rate_1'', carrier = ''FedEx'', service = ''Ground'',
                     rate = 5, delivery_days = 5\<rparr>],
      usps_zone = 4\<rparr>"

definition slow_quotes :: "nat \<Rightarrow> (js_error + easypost_shipment) \<times> real" where
  "slow_quotes k = (Inr slow_shipment, 200)"

definition api_down :: "nat \<Rightarrow> (js_error + easypost_shipment) \<times> real" where
  "api_down k = (Inl (Thrown Error ''connect ECONNREFUSED''), 200)"

text \<open>
  A quoting service whose responses differ from call to call: the rate of the one
  quote grows with the number of the call.
\<close>

definition varying_quotes :: "nat \<Rightarrow> (js_error + easypost_shipment) \<times> real" where
  "varying_quotes k =
     (Inr \<lparr>shipment_id = ''shp_1'',
           rates = Some [\<lparr>quote_id = ''rate_1'', carrier = ''FedEx'', service = ''Ground'',
                          rate = 5 + real k, delivery_days = 5\<rparr>],
           usps_zone = 4\<rparr>, 200)"

section \<open>Properties of the sort\<close>

lemma set_merge_iter: "set (merge_iter comparator xs ys) = set xs \<union> set ys"
  by (induction comparator xs ys rule: merge_iter.induct) auto

lemma set_msort: "set (msort comparator xs) = set xs"
proof (induction comparator xs rule: msort.induct)
  case (1 comparator array)
  show ?case
  proof (cases "length array \<le> 1")
    case True
    then show ?thesis by (simp add: msort.simps)
  next
    case False
    have "set (take (length array div 2) array) \<union> set (drop (length array div 2) array)
          = set array"
      by (metis append_take_drop_id set_append)
    with False 1 show ?thesis
      by (simp add: msort.simps [of comparator array] set_merge_iter Let_def)
  qed
qed

lemma cheaper_first_merge_iter:
  "cheaper_first xs \<Longrightarrow> cheaper_first ys \<Longrightarrow> cheaper_first (merge_iter dearer xs ys)"
  unfolding cheaper_first_def
  by (induction dearer xs ys rule: merge_iter.induct)
     (auto simp: set_merge_iter dearer_def)

lemma cheaper_first_msort: "cheaper_first (msort dearer xs)"
proof (induction dearer xs rule: msort.induct)
  case (1 array)
  show ?case
  proof (cases "length array \<le> 1")
    case True
    then have "array = [] \<or> (\<exists>x. array = [x])"
      by (cases array) auto
    then show ?thesis
      by (auto simp: msort.simps cheaper_first_def)
  next
    case False
    with 1 show ?thesis
      by (simp add: msort.simps [of dearer array] cheaper_first_merge_iter Let_def)
  qed
qed

lemma cheaper_first_filter: "cheaper_first xs \<Longrightarrow> cheaper_first (filter P xs)"
  unfolding cheaper_first_def by (induction xs) auto

lemma first_id_cheapest:
  assumes "cheaper_first xs" and "xs \<noteq> []"
  shows "\<exists>q \<in> set xs. first_id xs = Some (quote_id q) \<and> (\<forall>q' \<in> set xs. rate q \<le> rate q')"
proof -
  from assms(2) obtain q qs where xs: "xs = q # qs" by (cases xs) auto
  with assms(1) have "\<forall>q' \<in> set xs. rate q \<le> rate q'"
    by (auto simp: cheaper_first_def)
  with xs show ?thesis by (auto simp: first_id_def)
qed

section \<open>Properties of the rate selection\<close>

lemma rules_cheapest:
  assumes "\<exists>q \<in> set qs. eligible zone q"
  shows "\<exists>q \<in> set qs. eligible zone q
           \<and> rules \<lparr>shipment_id = sid, rates = Some qs, usps_zone = zone\<rparr> = Inr (quote_id q)
           \<and> (\<forall>q' \<in> set qs. eligible zone q' \<longrightarrow> rate q \<le> rate q')"
proof -
  define es where "es = filter (\<lambda>q. delivery_days q \<le> 2) qs"
  define srt where "srt = msort dearer es"
  define rest where "rest = (if zone > 2 then filter (\<lambda>q. carrier q \<noteq> ''USPS'') srt else srt)"
  have set_rest: "set rest = {q \<in> set qs. eligible zone q}"
    by (auto simp: rest_def srt_def es_def set_msort eligible_def)
  from assms have "qs \<noteq> []" and "es \<noteq> []"
    by (auto simp: es_def eligible_def filter_empty_conv)
  then have r: "ratesFor2DaysOrLess (Some qs) = Some srt"
    by (cases es) (auto simp: ratesFor2DaysOrLess_def es_def srt_def)
  have c: "chosenRate zone srt = first_id rest"
    by (simp add: chosenRate_def rest_def)
  have "cheaper_first rest"
    by (simp add: rest_def srt_def cheaper_first_msort cheaper_first_filter)
  moreover from assms set_rest have "rest \<noteq> []" by auto
  ultimately obtain q where q: "q \<in> set rest" "first_id rest = Some (quote_id q)"
      "\<forall>q' \<in> set rest. rate q \<le> rate q'"
    using first_id_cheapest by blast
  have "rules \<lparr>shipment_id = sid, rates = Some qs, usps_zone = zone\<rparr> = Inr (quote_id q)"
    using \<open>qs \<noteq> []\<close> r c q(2) by (simp add: rules_def)
  with q(1,3) set_rest show ?thesis by auto
qed

text \<open>
  C1. Whenever some quote has \<^verbatim>\<open>delivery_days <= 2\<close> and, for a zone above 2, a carrier
  other than USPS, \<open>rules\<close> returns the id of a quote that passes both tests and whose
  rate is the least among the quotes that pass them. For the quotes
  \<^verbatim>\<open>[{USPS, 1.00, 2}, {UPS, 3.00, 1}]\<close> it returns the id of the USPS quote at zone 1
  and the id of the UPS quote at zone 3.
\<close>

theorem rules_selects_cheapest_eligible:
  "((\<exists>q \<in> set qs. delivery_days q \<le> 2 \<and> (zone > 2 \<longrightarrow> carrier q \<noteq> ''USPS''))
     \<longrightarrow> (\<exists>q \<in> set qs. delivery_days q \<le> 2 \<and> (zone > 2 \<longrightarrow> carrier q \<noteq> ''USPS'')
           \<and> rules \<lparr>shipment_id = sid, rates = Some qs, usps_zone = zone\<rparr> = Inr (quote_id q)
           \<and> (\<forall>q' \<in> set qs. delivery_days q' \<le> 2 \<and> (zone > 2 \<longrightarrow> carrier q' \<noteq> ''USPS'')
                 \<longrightarrow> rate q \<le> rate q')))
   \<and> rules \<lparr>shipment_id = sid,
        rates = Some [\<lparr>quote_id = usps_id, carrier = ''USPS'', service = s1, rate = 1, delivery_days = 2\<rparr>,
                      \<lparr>quote_id = ups_id, carrier = ''UPS'', service = s2, rate = 3, delivery_days = 1\<rparr>],
        usps_zone = 1\<rparr> = Inr usps_id
   \<and> rules \<lparr>shipment_id = sid,
        rates = Some [\<lparr>quote_id = usps_id, carrier = ''USPS'', service = s1, rate = 1, delivery_days = 2\<rparr>,
                      \<lparr>quote_id = ups_id, carrier = ''UPS'', service = s2, rate = 3, delivery_days = 1\<rparr>],
        usps_zone = 3\<rparr> = Inr ups_id"
proof (intro conjI impI)
  assume "\<exists>q \<in> set qs. delivery_days q \<le> 2 \<and> (zone > 2 \<longrightarrow> carrier q \<noteq> ''USPS'')"
  then have "\<exists>q \<in> set qs. eligible zone q" by (simp add: eligible_def)
  from rules_cheapest [OF this, of sid]
  show "\<exists>q \<in> set qs. delivery_days q \<le> 2 \<and> (zone > 2 \<longrightarrow> carrier q \<noteq> ''USPS'')
           \<and> rules \<lparr>shipment_id = sid, rates = Some qs, usps_zone = zone\<rparr> = Inr (quote_id q)
           \<and> (\<forall>q' \<in> set qs. delivery_days q' \<le> 2 \<and> (zone > 2 \<longrightarrow> carrier q' \<noteq> ''USPS'')
                 \<longrightarrow> rate q \<le> rate q')"
    by (simp add: eligible_def)
next
  show "rules \<lparr>shipment_id = sid,
        rates = Some [\<lparr>quote_id = usps_id, carrier = ''USPS'', service = s1, rate = 1, delivery_days = 2\<rparr>,
                      \<lparr>quote_id = ups_id, carrier = ''UPS'', service = s2, rate = 3, delivery_days = 1\<rparr>],
        usps_zone = 1\<rparr> = Inr usps_id"
    by (simp add: rules_def ratesFor2DaysOrLess_def chosenRate_def first_id_def
        msort.simps dearer_def)
next
  show "rules \<lparr>shipment_id = sid,
        rates = Some [\<lparr>quote_id = usps_id, carrier = ''USPS'', service = s1, rate = 1, delivery_days = 2\<rparr>,
                      \<lparr>quote_id = ups_id, carrier = ''UPS'', service = s2, rate = 3, delivery_days = 1\<rparr>],
        usps_zone = 3\<rparr> = Inr ups_id"
    by (simp add: rules_def ratesFor2DaysOrLess_def chosenRate_def first_id_def
        msort.simps dearer_def)
qed

theorem rules_selects_cheapest_eligible_witness:
  "(\<exists>q \<in> set [\<lparr>quote_id = ''rate_1'', carrier = ''USPS'', service = ''Priority'', rate = 4, delivery_days = 2\<rparr>,
                \<lparr>quote_id = ''rate_2'', carrier = ''FedEx'', service = ''Ground'', rate = 5, delivery_days = 4\<rparr>,
                \<lparr>quote_id = ''rate_3'', carrier = ''UPS'', service = ''NextDay'', rate = 9, delivery_days = 1\<rparr>,
                \<lparr>quote_id = ''rate_4'', carrier = ''FedEx'', service = ''2Day'', rate = 7, delivery_days = 2\<rparr>].
      delivery_days q \<le> 2 \<and> ((5::int) > 2 \<longrightarrow> carrier q \<noteq> ''USPS''))
   \<and> rules \<lparr>shipment_id = ''shp_1'',
        rates = Some [\<lparr>quote_id = ''rate_1'', carrier = ''USPS'', service = ''Priority'', rate = 4, delivery_days = 2\<rparr>,
                \<lparr>quote_id = ''rate_2'', carrier = ''FedEx'', service = ''Ground'', rate = 5, delivery_days = 4\<rparr>,
                \<lparr>quote_id = ''rate_3'', carrier = ''UPS'', service = ''NextDay'', rate = 9, delivery_days = 1\<rparr>,
                \<lparr>quote_id = ''rate_4'', carrier = ''FedEx'', service = ''2Day'', rate = 7, delivery_days = 2\<rparr>],
        usps_zone = 5\<rparr> = Inr ''rate_4''"
proof -
  let ?qs = "[\<lparr>quote_id = ''rate_1'', carrier = ''USPS'', service = ''Priority'', rate = 4, delivery_days = 2\<rparr>,
                \<lparr>quote_id = ''rate_2'', carrier = ''FedEx'', service = ''Ground'', rate = 5, delivery_days = 4\<rparr>,
                \<lparr>quote_id = ''rate_3'', carrier = ''UPS'', service = ''NextDay'', rate = 9, delivery_days = 1\<rparr>,
                \<lparr>quote_id = ''rate_4'', carrier = ''FedEx'', service = ''2Day'', rate = 7, delivery_days = 2\<rparr>]"
  have h: "\<exists>q \<in> set ?qs. delivery_days q \<le> 2 \<and> ((5::int) > 2 \<longrightarrow> carrier q \<noteq> ''USPS'')"
    by simp
  from rules_selects_cheapest_eligible [of ?qs 5 "''shp_1''"] h
  have "\<exists>q \<in> set ?qs. delivery_days q \<le> 2 \<and> ((5::int) > 2 \<longrightarrow> carrier q \<noteq> ''USPS'')
           \<and> rules \<lparr>shipment_id = ''shp_1'', rates = Some ?qs, usps_zone = 5\<rparr> = Inr (quote_id q)
           \<and> (\<forall>q' \<in> set ?qs. delivery_days q' \<le> 2 \<and> ((5::int) > 2 \<longrightarrow> carrier q' \<noteq> ''USPS'')
                 \<longrightarrow> rate q \<le> rate q')"
    by blast
  then have "rules \<lparr>shipment_id = ''shp_1'', rates = Some ?qs, usps_zone = 5\<rparr> = Inr ''rate_4''"
    by auto
  with h show ?thesis by blast
qed

text \<open>
  C6. \<open>rules\<close> throws a \<^verbatim>\<open>NoSuitableRatesError\<close> when the rates are the empty array
  (zero rates), and when they are not empty but no rate has \<^verbatim>\<open>delivery_days <= 2\<close>
  (no rates for 2 days or less); it returns no rate id in either case.
\<close>

theorem rules_fails_without_rates:
  "rules \<lparr>shipment_id = sid, rates = Some [], usps_zone = zone\<rparr>
     = Inl (Thrown NoSuitableRatesError ''Easypost shipment returned zero rates'')
   \<and> (qs \<noteq> [] \<and> (\<forall>q \<in> set qs. \<not> delivery_days q \<le> 2)
        \<longrightarrow> rules \<lparr>shipment_id = sid, rates = Some qs, usps_zone = zone\<rparr>
              = Inl (Thrown NoSuitableRatesError ''No rates for 2 days or less''))"
proof (intro conjI impI)
  show "rules \<lparr>shipment_id = sid, rates = Some [], usps_zone = zone\<rparr>
     = Inl (Thrown NoSuitableRatesError ''Easypost shipment returned zero rates'')"
    by (simp add: rules_def)
next
  assume a: "qs \<noteq> [] \<and> (\<forall>q \<in> set qs. \<not> delivery_days q \<le> 2)"
  then have "filter (\<lambda>q. delivery_days q \<le> 2) qs = []"
    by (simp add: filter_empty_conv)
  then have "ratesFor2DaysOrLess (Some qs) = None"
    by (simp add: ratesFor2DaysOrLess_def)
  with a show "rules \<lparr>shipment_id = sid, rates = Some qs, usps_zone = zone\<rparr>
              = Inl (Thrown NoSuitableRatesError ''No rates for 2 days or less'')"
    by (simp add: rules_def)
qed

theorem rules_fails_without_rates_witness:
  "[\<lparr>quote_id = ''rate_1'', carrier = ''FedEx'', service = ''Ground'', rate = 5, delivery_days = 5\<rparr>] \<noteq> []
   \<and> \<not> delivery_days \<lparr>quote_id = ''rate_1'', carrier = ''FedEx'', service = ''Ground'', rate = 5, delivery_days = 5\<rparr> \<le> 2
   \<and> rules \<lparr>shipment_id = ''shp_1'',
        rates = Some [\<lparr>quote_id = ''rate_1'', carrier = ''FedEx'', service = ''Ground'', rate = 5, delivery_days = 5\<rparr>],
        usps_zone = 1\<rparr>
      = Inl (Thrown NoSuitableRatesError ''No rates for 2 days or less'')"
  using rules_fails_without_rates
    [of "''shp_1''" 1 "[\<lparr>quote_id = ''rate_1'', carrier = ''FedEx'', service = ''Ground'', rate = 5, delivery_days = 5\<rparr>]"]
  by simp

text \<open>
  C9. \<open>rules\<close> either throws a \<^verbatim>\<open>NoSuitableRatesError\<close> or returns the id that
  \<^verbatim>\<open>chosenRate\<close> holds, which is then defined; when \<^verbatim>\<open>chosenRate\<close> is
  \<^verbatim>\<open>undefined\<close> the call throws \<^verbatim>\<open>NoSuitableRatesError\<close> and returns nothing.
\<close>

theorem rules_result_defined:
  "(case rules s of
      Inl e \<Rightarrow> constructor e = NoSuitableRatesError
    | Inr rate_id \<Rightarrow>
        (\<exists>sorted_rates. ratesFor2DaysOrLess (rates s) = Some sorted_rates
           \<and> chosenRate (usps_zone s) sorted_rates = Some rate_id))
   \<and> (\<forall>sorted_rates. ratesFor2DaysOrLess (rates s) = Some sorted_rates
          \<and> chosenRate (usps_zone s) sorted_rates = None
        \<longrightarrow> rules s = Inl (Thrown NoSuitableRatesError ''chosenRate: undefined''))"
  by (auto simp: rules_def ratesFor2DaysOrLess_def split: option.splits list.splits)

theorem rules_result_defined_witness:
  "ratesFor2DaysOrLess (rates \<lparr>shipment_id = ''shp_1'',
        rates = Some [\<lparr>quote_id = ''rate_1'', carrier = ''USPS'', service = ''Priority'', rate = 4, delivery_days = 2\<rparr>],
        usps_zone = 4\<rparr>)
     = Some [\<lparr>quote_id = ''rate_1'', carrier = ''USPS'', service = ''Priority'', rate = 4, delivery_days = 2\<rparr>]
   \<and> chosenRate 4 [\<lparr>quote_id = ''rate_1'', carrier = ''USPS'', service = ''Priority'', rate = 4, delivery_days = 2\<rparr>] = None
   \<and> rules \<lparr>shipment_id = ''shp_1'',
        rates = Some [\<lparr>quote_id = ''rate_1'', carrier = ''USPS'', service = ''Priority'', rate = 4, delivery_days = 2\<rparr>],
        usps_zone = 4\<rparr>
      = Inl (Thrown NoSuitableRatesError ''chosenRate: undefined'')"
proof -
  let ?q = "\<lparr>quote_id = ''rate_1'', carrier = ''USPS'', service = ''Priority'', rate = 4, delivery_days = 2\<rparr>"
  let ?s = "\<lparr>shipment_id = ''shp_1'', rates = Some [?q], usps_zone = 4\<rparr>"
  have a: "ratesFor2DaysOrLess (rates ?s) = Some [?q]"
    by (simp add: ratesFor2DaysOrLess_def msort.simps)
  have b: "chosenRate (usps_zone ?s) [?q] = None"
    by (simp add: chosenRate_def first_id_def)
  from rules_result_defined [of ?s] a b
  have "rules ?s = Inl (Thrown NoSuitableRatesError ''chosenRate: undefined'')"
    by blast
  with a b show ?thesis by simp
qed

section \<open>Properties of the rounding\<close>

lemma round_even_of_int [simp]: "round_even (of_int n) = n"
  by (simp add: round_even_def)

lemma round_even_mono: "x \<le> y \<Longrightarrow> round_even x \<le> round_even y"
proof -
  assume xy: "x \<le> y"
  have fl: "\<lfloor>x\<rfloor> \<le> \<lfloor>y\<rfloor>" using xy by (rule floor_mono)
  show ?thesis
  proof (cases "\<lfloor>x\<rfloor> = \<lfloor>y\<rfloor>")
    case True
    with xy show ?thesis by (auto simp: round_even_def)
  next
    case False
    with fl have "\<lfloor>x\<rfloor> + 1 \<le> \<lfloor>y\<rfloor>" by simp
    moreover have "round_even x \<le> \<lfloor>x\<rfloor> + 1" by (simp add: round_even_def)
    moreover have "\<lfloor>y\<rfloor> \<le> round_even y" by (simp add: round_even_def)
    ultimately show ?thesis by linarith
  qed
qed

lemma round_even_minus: "round_even (- y) = - round_even y"
proof (cases "y \<in> \<int>")
  case True
  then obtain n where "y = of_int n" by (auto elim: Ints_cases)
  then show ?thesis by (simp flip: of_int_minus)
next
  case False
  then have "y \<noteq> of_int \<lfloor>y\<rfloor>"
    by (metis Ints_of_int)
  then have f: "\<lfloor>- y\<rfloor> = - \<lfloor>y\<rfloor> - 1"
    by (simp add: floor_minus ceiling_altdef)
  show ?thesis
    unfolding round_even_def f by (auto simp: algebra_simps)
qed

lemma powi_pos [simp]: "0 < (2::real) powi k"
  by simp

lemma ulp_exponent_eq:
  assumes "0 < x" and "2 powi e \<le> x" and "x < 2 powi (e + 1)"
  shows "ulp_exponent x = max e (- 1022) - 52"
proof -
  have p: "(2::real) powr real_of_int k = 2 powi k" for k
    by (simp add: powr_real_of_int')
  from p [of "e + 1"] have "(2::real) powr (real_of_int e + 1) = 2 powi (e + 1)" by simp
  with assms(3) have "x < 2 powr (real_of_int e + 1)" by simp
  then have "\<lfloor>log 2 x\<rfloor> = e"
    using assms(1,2) by (subst floor_log_eq_powr_iff) (simp_all add: powr_real_of_int')
  with assms(1) show ?thesis by (simp add: ulp_exponent_def)
qed

lemma binade:
  assumes "0 < x"
  shows "2 powi \<lfloor>log 2 x\<rfloor> \<le> x" and "x < 2 powi (\<lfloor>log 2 x\<rfloor> + 1)"
proof -
  have p: "(2::real) powr real_of_int k = 2 powi k" for k
    by (simp add: powr_real_of_int')
  have "2 powr real_of_int \<lfloor>log 2 x\<rfloor> \<le> x \<and> x < 2 powr (real_of_int \<lfloor>log 2 x\<rfloor> + 1)"
    using assms floor_log_eq_powr_iff [of x 2 "\<lfloor>log 2 x\<rfloor>"] by simp
  moreover from p [of "\<lfloor>log 2 x\<rfloor> + 1"]
  have "(2::real) powr (real_of_int \<lfloor>log 2 x\<rfloor> + 1) = 2 powi (\<lfloor>log 2 x\<rfloor> + 1)" by simp
  ultimately show "2 powi \<lfloor>log 2 x\<rfloor> \<le> x" and "x < 2 powi (\<lfloor>log 2 x\<rfloor> + 1)"
    by (simp_all add: p)
qed

lemma fl64_zero [simp]: "fl64 0 = 0"
  by (simp add: fl64_def)

lemma ulp_exponent_minus [simp]: "ulp_exponent (- x) = ulp_exponent x"
  by (simp add: ulp_exponent_def)

lemma fl64_minus: "fl64 (- x) = - fl64 x"
  by (simp add: fl64_def round_even_minus)

lemma powi_less_cancel: "(2::real) powi a < 2 powi b \<Longrightarrow> a < b"
  by (metis not_le one_less_numeral_iff power_int_increasing semiring_norm(76) less_imp_le leD)

lemma powi_le_mono: "a \<le> b \<Longrightarrow> (2::real) powi a \<le> 2 powi b"
  by (rule power_int_increasing) simp_all

lemma powi_split: "g \<le> k \<Longrightarrow> (2::real) powi k = 2 ^ nat (k - g) * 2 powi g"
proof -
  assume "g \<le> k"
  define m where "m = nat (k - g)"
  with \<open>g \<le> k\<close> have k: "k = int m + g" by simp
  have "(2::real) powi (int m + g) = 2 powi int m * 2 powi g"
    by (rule power_int_add) simp
  also have "(2::real) powi int m = 2 ^ m" by (rule power_int_of_nat)
  finally show ?thesis unfolding k m_def [symmetric] by simp
qed

lemma fl64_representable:
  assumes "\<bar>n\<bar> < 2 ^ 53" and "- 1074 \<le> k"
  shows "fl64 (of_int n * 2 powi k) = of_int n * 2 powi k"
proof (cases "n = 0")
  case True
  then show ?thesis by simp
next
  case False
  define x where "x = of_int n * (2::real) powi k"
  define g where "g = ulp_exponent x"
  define m where "m = nat (k - g)"
  from False have nz: "x \<noteq> 0" and pos: "0 < \<bar>x\<bar>" by (simp_all add: x_def)
  have "\<bar>x\<bar> = of_int \<bar>n\<bar> * 2 powi k" by (simp add: x_def abs_mult)
  also have "\<dots> < 2 ^ 53 * 2 powi k"
    using assms(1) by (intro mult_strict_right_mono) (simp_all flip: of_int_less_iff)
  also have "\<dots> = 2 powi (53 + k)"
    by (subst power_int_add) simp_all
  finally have "2 powi \<lfloor>log 2 \<bar>x\<bar>\<rfloor> < (2::real) powi (53 + k)"
    using binade(1) [OF pos] by linarith
  then have "\<lfloor>log 2 \<bar>x\<bar>\<rfloor> < 53 + k" by (rule powi_less_cancel)
  with assms(2) have gk: "g \<le> k" by (simp add: g_def ulp_exponent_def)
  have split: "(2::real) powi k = 2 ^ m * 2 powi g"
    unfolding m_def by (rule powi_split [OF gk])
  have "x / 2 powi g = of_int n * 2 ^ m"
    unfolding x_def split by simp
  also have "\<dots> = of_int (n * 2 ^ m)" by simp
  finally have "round_even (x / 2 powi g) = n * 2 ^ m"
    by (simp only: round_even_of_int)
  then have "fl64 x = of_int (n * 2 ^ m) * 2 powi g"
    using nz by (simp add: fl64_def g_def)
  also have "\<dots> = x" unfolding x_def split by simp
  finally show ?thesis unfolding x_def .
qed

lemma fl64_of_int: "\<bar>n\<bar> < 2 ^ 53 \<Longrightarrow> fl64 (of_int n) = of_int n"
  using fl64_representable [of n 0] by simp

lemma fl64_numeral [simp]: "numeral w < (2::int) ^ 53 \<Longrightarrow> fl64 (numeral w) = numeral w"
  using fl64_of_int [of "numeral w"] by simp

lemma fl64_one [simp]: "fl64 1 = 1"
  using fl64_of_int [of 1] by simp

lemma fl64_pos_mono:
  assumes "0 < x" and "x \<le> y"
  shows "fl64 x \<le> fl64 y"
proof -
  let ?gx = "ulp_exponent x" and ?gy = "ulp_exponent y"
  from assms have y: "0 < y" by simp
  have "log 2 x \<le> log 2 y" using assms y by simp
  then have "\<lfloor>log 2 x\<rfloor> \<le> \<lfloor>log 2 y\<rfloor>" by (rule floor_mono)
  then have g: "?gx \<le> ?gy" using assms(1) y by (simp add: ulp_exponent_def)
  have fx: "fl64 x = of_int (round_even (x / 2 powi ?gx)) * 2 powi ?gx"
    using assms(1) by (simp add: fl64_def)
  have fy: "fl64 y = of_int (round_even (y / 2 powi ?gy)) * 2 powi ?gy"
    using y by (simp add: fl64_def)
  show ?thesis
  proof (cases "?gx = ?gy")
    case True
    have "x / 2 powi ?gy \<le> y / 2 powi ?gy"
      using assms(2) by (simp add: divide_right_mono)
    then have "round_even (x / 2 powi ?gy) \<le> round_even (y / 2 powi ?gy)"
      by (rule round_even_mono)
    then show ?thesis unfolding fx fy True
      by (intro mult_right_mono) simp_all
  next
    case False
    with g have lt: "?gx + 1 \<le> ?gy" by simp
    have "- 1074 \<le> ?gx" by (simp add: ulp_exponent_def)
    with lt have "- 1074 < ?gy" by simp
    moreover have "\<bar>y\<bar> = y" using y by simp
    ultimately have ey: "?gy = \<lfloor>log 2 y\<rfloor> - 52"
      by (simp add: ulp_exponent_def max_def split: if_splits)
    have "\<lfloor>log 2 x\<rfloor> + 1 \<le> ?gx + 53" using assms(1) by (simp add: ulp_exponent_def)
    then have "(2::real) powi (\<lfloor>log 2 x\<rfloor> + 1) \<le> 2 powi (?gx + 53)" by (rule powi_le_mono)
    with binade(2) [OF assms(1)] have "x < 2 powi (?gx + 53)" by linarith
    also have "\<dots> = 2 ^ 53 * 2 powi ?gx"
      by (subst add.commute, subst power_int_add) simp_all
    finally have "x / 2 powi ?gx \<le> of_int (2 ^ 53)"
      by (simp add: pos_divide_le_eq)
    then have "round_even (x / 2 powi ?gx) \<le> round_even (of_int (2 ^ 53))"
      by (rule round_even_mono)
    then have "round_even (x / 2 powi ?gx) \<le> 2 ^ 53" by (simp only: round_even_of_int)
    then have "of_int (round_even (x / 2 powi ?gx)) \<le> (2::real) ^ 53"
      by (metis of_int_le_iff of_int_numeral of_int_power)
    then have "fl64 x \<le> 2 ^ 53 * 2 powi ?gx" unfolding fx
      by (intro mult_right_mono) simp_all
    also have "\<dots> = 2 powi (?gx + 53)"
      by (subst add.commute, subst power_int_add) simp_all
    also have "\<dots> \<le> 2 powi (?gy + 52)"
      using lt by (intro powi_le_mono) simp
    finally have up: "fl64 x \<le> 2 powi (?gy + 52)" .
    have "2 powi (?gy + 52) \<le> y" using binade(1) [OF y] ey by simp
    moreover have "(2::real) powi (?gy + 52) = 2 ^ 52 * 2 powi ?gy"
      by (subst add.commute, subst power_int_add) simp_all
    ultimately have "of_int (2 ^ 52) \<le> y / 2 powi ?gy"
      by (simp add: pos_le_divide_eq)
    then have "round_even (of_int (2 ^ 52)) \<le> round_even (y / 2 powi ?gy)"
      by (rule round_even_mono)
    then have "2 ^ 52 \<le> round_even (y / 2 powi ?gy)" by (simp only: round_even_of_int)
    then have "(2::real) ^ 52 \<le> of_int (round_even (y / 2 powi ?gy))"
      by (metis of_int_le_iff of_int_numeral of_int_power)
    then have "2 ^ 52 * 2 powi ?gy \<le> fl64 y" unfolding fy
      by (intro mult_right_mono) simp_all
    also have "2 ^ 52 * 2 powi ?gy = (2::real) powi (?gy + 52)"
      by (subst add.commute, subst power_int_add) simp_all
    finally show ?thesis using up by linarith
  qed
qed

lemma fl64_nonneg: "0 \<le> x \<Longrightarrow> 0 \<le> fl64 x"
proof (cases "x = 0")
  case False
  assume "0 \<le> x"
  with False have "0 < x" by simp
  then have "0 \<le> x / 2 powi ulp_exponent x" by simp
  then have "round_even 0 \<le> round_even (x / 2 powi ulp_exponent x)" by (rule round_even_mono)
  moreover have "round_even 0 = 0" using round_even_of_int [of 0] by simp
  ultimately show ?thesis using False by (simp add: fl64_def)
qed simp

lemma mono_fl64: "mono fl64"
proof (rule monoI)
  fix x y :: real
  assume xy: "x \<le> y"
  consider "0 < x" | "x \<le> 0" "0 \<le> y" | "y < 0" by linarith
  then show "fl64 x \<le> fl64 y"
  proof cases
    case 1
    from 1 xy show ?thesis by (rule fl64_pos_mono)
  next
    case 2
    from 2(1) have "0 \<le> fl64 (- x)" by (intro fl64_nonneg) simp
    then have "fl64 x \<le> 0" by (simp add: fl64_minus)
    with fl64_nonneg [OF 2(2)] show ?thesis by linarith
  next
    case 3
    with xy have "0 < - y" "- y \<le> - x" by simp_all
    then have "fl64 (- y) \<le> fl64 (- x)" by (rule fl64_pos_mono)
    then show ?thesis by (simp add: fl64_minus)
  qed
qed

lemma fl64_in_binade:
  assumes "2 powi e \<le> \<bar>x\<bar>" and "\<bar>x\<bar> < 2 powi (e + 1)" and "- 1022 \<le> e"
  shows "fl64 x = of_int (round_even (x / 2 powi (e - 52))) * 2 powi (e - 52)"
proof -
  have pos: "0 < \<bar>x\<bar>" using assms(1) zero_less_power_int [of "2::real" e] by linarith
  from ulp_exponent_eq [OF pos assms(1,2)] assms(3)
  have "ulp_exponent x = e - 52" by (simp add: ulp_exponent_def)
  moreover from pos have "x \<noteq> 0" by simp
  ultimately show ?thesis by (simp add: fl64_def)
qed

section \<open>Properties of the retry utility\<close>

lemma attempt_once_settles:
  "attempt_result options f (state r) = Inr v \<Longrightarrow>
   attempt_once f types options a r
     = Settled (Inr (Some v)) (r\<lparr>state := state_after f (state r), invocations := Suc (invocations r)\<rparr>)"
  by (auto simp: attempt_once_def attempt_result_def state_after_def Let_def split: prod.splits)

lemma attempt_once_last:
  "attempt_result options f (state r) = Inl e \<Longrightarrow> strictly_equals (real a) (opt_maxRetries options) \<Longrightarrow>
   attempt_once f types options a r
     = Settled (Inl e) (r\<lparr>state := state_after f (state r), invocations := Suc (invocations r)\<rparr>)"
  by (auto simp: attempt_once_def attempt_result_def state_after_def Let_def split: prod.splits)

lemma attempt_once_not_retryable:
  "attempt_result options f (state r) = Inl e \<Longrightarrow> \<not> shouldRetry types e \<Longrightarrow>
   attempt_once f types options a r
     = Settled (Inl e) (r\<lparr>state := state_after f (state r), invocations := Suc (invocations r)\<rparr>)"
  by (auto simp: attempt_once_def attempt_result_def state_after_def Let_def split: prod.splits)

lemma attempt_once_waits:
  "attempt_result options f (state r) = Inl e \<Longrightarrow> \<not> strictly_equals (real a) (opt_maxRetries options)
   \<Longrightarrow> shouldRetry types e \<Longrightarrow>
   attempt_once f types options a r
     = Waited (r\<lparr>state := state_after f (state r), invocations := Suc (invocations r),
                drawn := (if opt_jitter options > 0 then Suc (drawn r) else drawn r),
                timers := timers r @ [wait_after (rounding r) (math_pow r) options (math_random r (drawn r)) a]\<rparr>)"
  by (auto simp: attempt_once_def attempt_result_def state_after_def wait_after_def Let_def split: prod.splits)

lemma attempt_once_cases:
  "(\<exists>res. attempt_once f types options a r
     = Settled res (r\<lparr>state := state_after f (state r), invocations := Suc (invocations r)\<rparr>)
     \<and> (case res of Inr v \<Rightarrow> \<exists>x. v = Some x \<and> attempt_result options f (state r) = Inr x
         | Inl e \<Rightarrow> attempt_result options f (state r) = Inl e
             \<and> (strictly_equals (real a) (opt_maxRetries options) \<or> \<not> shouldRetry types e)))
   \<or> (\<exists>e. attempt_result options f (state r) = Inl e \<and> shouldRetry types e
        \<and> \<not> strictly_equals (real a) (opt_maxRetries options)
        \<and> attempt_once f types options a r
     = Waited (r\<lparr>state := state_after f (state r), invocations := Suc (invocations r),
                drawn := (if opt_jitter options > 0 then Suc (drawn r) else drawn r),
                timers := timers r @ [wait_after (rounding r) (math_pow r) options (math_random r (drawn r)) a]\<rparr>))"
proof (cases "attempt_result options f (state r)")
  case (Inr v)
  from attempt_once_settles [OF this] Inr show ?thesis by auto
next
  case (Inl e)
  show ?thesis
  proof (cases "strictly_equals (real a) (opt_maxRetries options) \<or> \<not> shouldRetry types e")
    case True
    with Inl attempt_once_last [OF Inl] attempt_once_not_retryable [OF Inl] show ?thesis
      by auto
  next
    case False
    with Inl attempt_once_waits [OF Inl] show ?thesis by auto
  qed
qed

lemma retry_loop_step:
  "real a \<le> to_number (opt_maxRetries options) \<Longrightarrow>
   retry_loop f types options a r =
     (case attempt_once f types options a r of
        Settled result r' \<Rightarrow> (result, r')
      | Waited r' \<Rightarrow> retry_loop f types options (Suc a) r')"
  by (subst retry_loop.simps) simp

lemma retry_loop_exit:
  "\<not> real a \<le> to_number (opt_maxRetries options) \<Longrightarrow>
   retry_loop f types options a r = (Inr None, r)"
  by (subst retry_loop.simps) simp

lemma retry_loop_timers:
  "retry_loop f types options a r = (res, r') \<Longrightarrow>
   math_random r' = math_random r \<and> rounding r' = rounding r \<and> math_pow r' = math_pow r \<and>
   (\<exists>m. timers r' = timers r @
            map (\<lambda>k. wait_after (rounding r) (math_pow r) options
                        (math_random r (if opt_jitter options > 0 then drawn r + k else drawn r))
                        (a + k)) [0..<m])"
proof (induction f types options a r arbitrary: res r' rule: retry_loop.induct)
  case (1 f types options a r)
  show ?case
  proof (cases "real a \<le> to_number (opt_maxRetries options)")
    case False
    with "1.prems" have "r' = r" by (simp add: retry_loop_exit)
    then show ?thesis by (auto intro: exI [of _ 0])
  next
    case True
    note step = retry_loop_step [OF True, of f types r]
    from attempt_once_cases [of f types options a r]
    show ?thesis
    proof (elim disjE exE conjE)
      fix sres
      assume "attempt_once f types options a r
         = Settled sres (r\<lparr>state := state_after f (state r), invocations := Suc (invocations r)\<rparr>)"
      with step "1.prems"
      have "r' = r\<lparr>state := state_after f (state r), invocations := Suc (invocations r)\<rparr>"
        by simp
      then show ?thesis by (auto intro: exI [of _ 0])
    next
      fix e
      let ?r = "r\<lparr>state := state_after f (state r), invocations := Suc (invocations r),
                drawn := (if opt_jitter options > 0 then Suc (drawn r) else drawn r),
                timers := timers r @ [wait_after (rounding r) (math_pow r) options (math_random r (drawn r)) a]\<rparr>"
      assume w: "attempt_once f types options a r = Waited ?r"
      with step "1.prems" have "retry_loop f types options (Suc a) ?r = (res, r')" by simp
      from "1.IH" [OF True w this]
      obtain m where mr: "math_random r' = math_random r" "rounding r' = rounding r"
          "math_pow r' = math_pow r"
        and t: "timers r' = timers ?r @
            map (\<lambda>k. wait_after (rounding r) (math_pow r) options
                        (math_random ?r (if opt_jitter options > 0 then drawn ?r + k else drawn ?r))
                        (Suc a + k)) [0..<m]"
        by auto
      have "timers r' = timers r @
            map (\<lambda>k. wait_after (rounding r) (math_pow r) options
                        (math_random r (if opt_jitter options > 0 then drawn r + k else drawn r))
                        (a + k)) [0..<Suc m]"
        unfolding t by (simp add: upt_conv_Cons map_Suc_upt [symmetric] del: upt_Suc)
      with mr show ?thesis by blast
    qed
  qed
qed

lemma retry_loop_failing_calls:
  assumes mr: "opt_maxRetries options = Number (real n)"
  shows "a + k = n \<Longrightarrow>
         \<forall>j\<le>k. \<exists>e. attempt_result options f ((state_after f ^^ j) (state r)) = Inl e \<and> shouldRetry types e \<Longrightarrow>
         (\<exists>e. attempt_result options f ((state_after f ^^ k) (state r)) = Inl e
              \<and> fst (retry_loop f types options a r) = Inl e)
       \<and> invocations (snd (retry_loop f types options a r)) = invocations r + k + 1
       \<and> state (snd (retry_loop f types options a r)) = (state_after f ^^ (k + 1)) (state r)
       \<and> length (timers (snd (retry_loop f types options a r))) = length (timers r) + k"
proof (induction k arbitrary: a r)
  case 0
  then have an: "a = n" by simp
  from "0.prems"(2) obtain e where e: "attempt_result options f (state r) = Inl e" by auto
  have le: "real a \<le> to_number (opt_maxRetries options)" by (simp add: mr an)
  have "strictly_equals (real a) (opt_maxRetries options)" by (simp add: mr an)
  from attempt_once_last [OF e this, of types]
  show ?case by (simp add: retry_loop_step [OF le] e)
next
  case (Suc k)
  then have an: "a < n" by simp
  from Suc.prems(2) have "\<exists>e. attempt_result options f ((state_after f ^^ 0) (state r)) = Inl e \<and> shouldRetry types e"
    by blast
  then obtain e where e: "attempt_result options f (state r) = Inl e"
    and sr: "shouldRetry types e" by auto
  have le: "real a \<le> to_number (opt_maxRetries options)" using an by (simp add: mr)
  have ne: "\<not> strictly_equals (real a) (opt_maxRetries options)" using an by (simp add: mr)
  let ?r = "r\<lparr>state := state_after f (state r), invocations := Suc (invocations r),
                drawn := (if opt_jitter options > 0 then Suc (drawn r) else drawn r),
                timers := timers r @ [wait_after (rounding r) (math_pow r) options (math_random r (drawn r)) a]\<rparr>"
  have step: "retry_loop f types options a r = retry_loop f types options (Suc a) ?r"
    by (simp add: retry_loop_step [OF le] attempt_once_waits [OF e ne sr])
  from Suc.prems have a': "Suc a + k = n" by simp
  have f': "\<forall>j\<le>k. \<exists>e. attempt_result options f ((state_after f ^^ j) (state ?r)) = Inl e \<and> shouldRetry types e"
  proof (intro allI impI)
    fix j assume "j \<le> k"
    then have "Suc j \<le> Suc k" by simp
    with Suc.prems(2) have "\<exists>e. attempt_result options f ((state_after f ^^ Suc j) (state r)) = Inl e \<and> shouldRetry types e"
      by blast
    then show "\<exists>e. attempt_result options f ((state_after f ^^ j) (state ?r)) = Inl e \<and> shouldRetry types e"
      by (simp add: funpow_swap1)
  qed
  from Suc.IH [OF a' f'] show ?case
    by (simp add: step funpow_swap1)
qed

text \<open>
  C3. With \<^verbatim>\<open>maxRetries = n\<close> and an operation whose calls all fail with an error that
  \<^verbatim>\<open>retry\<close> retries, \<^verbatim>\<open>retry\<close> calls the operation exactly \<open>n + 1\<close> times and
  rejects with the error of the last call, the \<open>(n + 1)\<close>-th.
\<close>

theorem retry_exhausts_budget:
  assumes "opt_maxRetries options = Number (real n)"
    and "0 \<le> opt_jitter options" and "opt_jitter options \<le> 1"
    and "0 \<le> to_number (opt_retryInterval options)"
    and "\<forall>j\<le>n. \<exists>e. attempt_result options f ((state_after f ^^ j) (state r)) = Inl e
                      \<and> shouldRetry types e"
  shows "\<exists>e. attempt_result options f ((state_after f ^^ n) (state r)) = Inl e
           \<and> fst (retry (Function f) (Array types) options r) = Inl e
           \<and> invocations (snd (retry (Function f) (Array types) options r)) = invocations r + n + 1"
proof -
  have "retry (Function f) (Array types) options r = retry_loop f types options 0 r"
    using assms(1-4) by (simp add: retry_def)
  moreover have "0 + n = n" by simp
  note retry_loop_failing_calls [OF assms(1) this assms(5)]
  ultimately show ?thesis by auto
qed

theorem retry_exhausts_budget_witness:
  "fst (retry (Function always_fails) (Array [Extends ''NetworkError'' Error])
          \<lparr>backoff = None, backoffMultiplier = None, retryInterval = Some (Number 10),
           maxRetries = Some (Number 2), jitter = None, maxDelay = None, timeout = None\<rparr>
          \<lparr>state = 0, invocations = 0, timers = [], math_random = (\<lambda>k. 1 / 4), drawn = 0, math_pow = rounded_pow, rounding = fl64\<rparr>)
     = Inl (Thrown (Extends ''NetworkError'' Error) ''third failure'')
   \<and> invocations (snd (retry (Function always_fails) (Array [Extends ''NetworkError'' Error])
          \<lparr>backoff = None, backoffMultiplier = None, retryInterval = Some (Number 10),
           maxRetries = Some (Number 2), jitter = None, maxDelay = None, timeout = None\<rparr>
          \<lparr>state = 0, invocations = 0, timers = [], math_random = (\<lambda>k. 1 / 4), drawn = 0, math_pow = rounded_pow, rounding = fl64\<rparr>)) = 3"
proof -
  let ?o = "\<lparr>backoff = None, backoffMultiplier = None, retryInterval = Some (Number 10),
           maxRetries = Some (Number 2), jitter = None, maxDelay = None, timeout = None\<rparr>"
  let ?r = "\<lparr>state = 0::nat, invocations = 0, timers = [], math_random = (\<lambda>k. 1 / 4), drawn = 0, math_pow = rounded_pow, rounding = fl64\<rparr>"
  have st: "(state_after always_fails ^^ j) s = s + j" for j s
    by (induction j) (simp_all add: state_after_def always_fails_def)
  have 1: "opt_maxRetries ?o = Number (real 2)" by (simp add: opt_maxRetries_def)
  have 2: "0 \<le> opt_jitter ?o" "opt_jitter ?o \<le> 1" by (simp_all add: opt_jitter_def)
  have 3: "0 \<le> to_number (opt_retryInterval ?o)" by (simp add: opt_retryInterval_def)
  have 4: "\<forall>j\<le>2. \<exists>e. attempt_result ?o always_fails ((state_after always_fails ^^ j) (state ?r)) = Inl e
                      \<and> shouldRetry [Extends ''NetworkError'' Error] e"
    by (simp add: st attempt_result_def always_fails_def opt_timeout_def shouldRetry_def instanceof_def)
  from retry_exhausts_budget [OF 1 2 3 4]
  show ?thesis
    by (simp add: st attempt_result_def always_fails_def opt_timeout_def)
qed

text \<open>
  C5. With a non-empty \<^verbatim>\<open>ErrorTypes\<close> and an operation whose first call fails with an
  error that is an instance of none of them, \<^verbatim>\<open>retry\<close> calls the operation once and
  rejects with that error at once: no timer is set. This holds for every
  \<^verbatim>\<open>maxRetries\<close> that passes the validation, so for every one from 1 on.
\<close>

theorem retry_stops_on_other_error:
  assumes "types \<noteq> []"
    and "0 \<le> opt_jitter options" and "opt_jitter options \<le> 1"
    and "0 \<le> to_number (opt_maxRetries options)"
    and "0 \<le> to_number (opt_retryInterval options)"
    and "attempt_result options f (state r) = Inl e"
    and "\<not> list_ex (\<lambda>ErrorType. instanceof e ErrorType \<or> constructor e = ErrorType) types"
  shows "retry (Function f) (Array types) options r
           = (Inl e, r\<lparr>state := state_after f (state r), invocations := Suc (invocations r)\<rparr>)"
proof -
  have "retry (Function f) (Array types) options r = retry_loop f types options 0 r"
    using assms(2-5) by (simp add: retry_def)
  moreover have "real 0 \<le> to_number (opt_maxRetries options)"
    using assms(4) by simp
  moreover have "\<not> shouldRetry types e"
    using assms(1,7) by (simp add: shouldRetry_def)
  ultimately show ?thesis
    using attempt_once_not_retryable [OF assms(6), of types 0]
    by (simp add: retry_loop_step)
qed

theorem retry_stops_on_other_error_witness:
  "retry (Function times_out) (Array [Extends ''NetworkError'' Error])
          \<lparr>backoff = None, backoffMultiplier = None, retryInterval = Some (Number 10),
           maxRetries = Some (Number 3), jitter = None, maxDelay = None, timeout = None\<rparr>
          \<lparr>state = 0, invocations = 0, timers = [], math_random = (\<lambda>k. 1 / 4), drawn = 0, math_pow = rounded_pow, rounding = fl64\<rparr>
     = (Inl (Thrown (Extends ''TimeoutError'' Error) ''Request timed out''),
        \<lparr>state = 1, invocations = 1, timers = [], math_random = (\<lambda>k. 1 / 4), drawn = 0, math_pow = rounded_pow, rounding = fl64\<rparr>)"
proof -
  let ?o = "\<lparr>backoff = None, backoffMultiplier = None, retryInterval = Some (Number 10),
           maxRetries = Some (Number 3), jitter = None, maxDelay = None, timeout = None\<rparr>"
  let ?r = "\<lparr>state = 0::nat, invocations = 0, timers = [], math_random = (\<lambda>k. 1 / 4), drawn = 0, math_pow = rounded_pow, rounding = fl64\<rparr>"
  let ?e = "Thrown (Extends ''TimeoutError'' Error) ''Request timed out''"
  have 1: "[Extends ''NetworkError'' Error] \<noteq> []" by simp
  have 2: "0 \<le> opt_jitter ?o" "opt_jitter ?o \<le> 1" by (simp_all add: opt_jitter_def)
  have 3: "0 \<le> to_number (opt_maxRetries ?o)" by (simp add: opt_maxRetries_def)
  have 4: "0 \<le> to_number (opt_retryInterval ?o)" by (simp add: opt_retryInterval_def)
  have 5: "attempt_result ?o times_out (state ?r) = Inl ?e"
    by (simp add: attempt_result_def times_out_def opt_timeout_def)
  have 6: "\<not> list_ex (\<lambda>ErrorType. instanceof ?e ErrorType \<or> constructor ?e = ErrorType)
              [Extends ''NetworkError'' Error]"
    by (simp add: instanceof_def)
  from retry_stops_on_other_error [OF 1 2 3 4 5 6]
  show ?thesis by (simp add: state_after_def times_out_def)
qed

text \<open>
  C7. When \<^verbatim>\<open>asyncFn\<close> is not a function, \<^verbatim>\<open>ErrorTypes\<close> is not an array,
  \<^verbatim>\<open>jitter\<close> is outside \<open>[0, 1]\<close>, or \<^verbatim>\<open>maxRetries\<close> or \<^verbatim>\<open>retryInterval\<close> is
  negative, \<^verbatim>\<open>retry\<close> rejects with a \<^verbatim>\<open>TypeError\<close> or a \<^verbatim>\<open>RangeError\<close> and the run
  is as it was: the operation has not been called. With \<^verbatim>\<open>jitter = 2\<close> the error is
  the \<^verbatim>\<open>RangeError\<close> about jitter.
\<close>

theorem retry_rejects_invalid_configuration:
  assumes "asyncFn = NotAFunction \<or> ErrorTypes = NotAnArray
             \<or> opt_jitter options < 0 \<or> opt_jitter options > 1
             \<or> to_number (opt_maxRetries options) < 0
             \<or> to_number (opt_retryInterval options) < 0"
  shows "\<exists>e. retry asyncFn ErrorTypes options r = (Inl e, r)
           \<and> (constructor e = TypeError \<or> constructor e = RangeError)
           \<and> (jitter options = Some 2 \<and> asyncFn \<noteq> NotAFunction \<and> ErrorTypes \<noteq> NotAnArray
                \<longrightarrow> e = Thrown RangeError ''jitter must be between 0 and 1.0'')"
  using assms
  by (cases asyncFn; cases ErrorTypes) (auto simp: retry_def opt_jitter_def)

theorem retry_rejects_invalid_configuration_witness:
  "retry (Function always_fails) (Array [])
          \<lparr>backoff = None, backoffMultiplier = None, retryInterval = None,
           maxRetries = None, jitter = Some 2, maxDelay = None, timeout = None\<rparr>
          \<lparr>state = 0, invocations = 0, timers = [], math_random = (\<lambda>k. 1 / 4), drawn = 0, math_pow = rounded_pow, rounding = fl64\<rparr>
     = (Inl (Thrown RangeError ''jitter must be between 0 and 1.0''),
        \<lparr>state = 0, invocations = 0, timers = [], math_random = (\<lambda>k. 1 / 4), drawn = 0, math_pow = rounded_pow, rounding = fl64\<rparr>)"
proof -
  let ?o = "\<lparr>backoff = None, backoffMultiplier = None, retryInterval = None,
           maxRetries = None, jitter = Some 2, maxDelay = None, timeout = None\<rparr>"
  have "opt_jitter ?o > 1" by (simp add: opt_jitter_def)
  then have "Function always_fails = NotAFunction \<or> Array [] = NotAnArray
             \<or> opt_jitter ?o < 0 \<or> opt_jitter ?o > 1
             \<or> to_number (opt_maxRetries ?o) < 0
             \<or> to_number (opt_retryInterval ?o) < 0"
    by simp
  from retry_rejects_invalid_configuration [OF this]
  show ?thesis by auto
qed

lemma retry_enters_loop:
  assumes "snd (retry (Function f) (Array types) options r) \<noteq> r"
  shows "retry (Function f) (Array types) options r = retry_loop f types options 0 r"
    and "0 \<le> to_number (opt_retryInterval options)"
  using assms by (auto simp: retry_def split: if_splits)

lemma retry_timers:
  assumes "timers r = []" and "i < length (timers (snd (retry (Function f) (Array types) options r)))"
  shows "timers (snd (retry (Function f) (Array types) options r)) ! i
           = wait_after (rounding r) (math_pow r) options
               (math_random r (if opt_jitter options > 0 then drawn r + i else drawn r)) i"
proof -
  let ?R = "retry (Function f) (Array types) options r"
  have "snd ?R \<noteq> r"
  proof
    assume "snd ?R = r"
    then have "timers (snd ?R) = timers r" by (rule arg_cong)
    with assms show False by simp
  qed
  from retry_enters_loop(1) [OF this]
  have "retry_loop f types options 0 r = (fst ?R, snd ?R)"
    by (simp only: prod.collapse)
  from retry_loop_timers [OF this] assms(1)
  obtain m where m: "timers (snd ?R) =
            map (\<lambda>k. wait_after (rounding r) (math_pow r) options
                        (math_random r (if opt_jitter options > 0 then drawn r + k else drawn r))
                        k) [0..<m]"
    by auto
  with assms(2) have "i < m" by simp
  then show ?thesis unfolding m by simp
qed

text \<open>
  C8. With \<^verbatim>\<open>backoff = true\<close>, \<^verbatim>\<open>retryInterval = r\<close>, \<^verbatim>\<open>backoffMultiplier = m\<close>,
  \<^verbatim>\<open>maxDelay = M\<close> and \<^verbatim>\<open>jitter = 0\<close>, the \<open>i\<close>-th wait of a run, the one between the
  \<open>i\<close>-th failed attempt and the next attempt, is \<open>min (r * m ^ (i - 1)) M\<close> as the
  engine computes it: the power by \<^verbatim>\<open>Math.pow\<close>, the product rounded to a double, the
  result not below 0. When \<open>m\<close> and \<open>M\<close> are not negative, as the retry policy
  requires, and the power and the product are computed without rounding, the wait is
  \<open>min (r * m ^ (i - 1)) M\<close> exactly.
\<close>

theorem backoff_delay_sequence:
  assumes "backoff options = Some True" and "retryInterval options = Some interval"
    and "backoffMultiplier options = Some m" and "maxDelay options = Some M"
    and "jitter options = Some 0"
    and "timers r = []"
    and "1 \<le> i" and "i \<le> length (timers (snd (retry (Function f) (Array types) options r)))"
  shows "timers (snd (retry (Function f) (Array types) options r)) ! (i - 1)
           = max 0 (min (rounding r (to_number interval * math_pow r m (i - 1))) M)
     \<and> (0 \<le> m \<and> 0 \<le> M \<and> math_pow r m (i - 1) = m ^ (i - 1)
          \<and> rounding r (to_number interval * m ^ (i - 1)) = to_number interval * m ^ (i - 1)
        \<longrightarrow> timers (snd (retry (Function f) (Array types) options r)) ! (i - 1)
              = min (to_number interval * m ^ (i - 1)) M)"
proof -
  let ?R = "retry (Function f) (Array types) options r"
  let ?w = "timers (snd ?R) ! (i - 1)"
  from assms(7,8) have i: "i - 1 < length (timers (snd ?R))" by simp
  have "snd ?R \<noteq> r"
  proof
    assume "snd ?R = r"
    then have "timers (snd ?R) = timers r" by (rule arg_cong)
    with assms(6) i show False by simp
  qed
  from retry_enters_loop(2) [OF this] assms(2)
  have r0: "0 \<le> to_number interval" by (simp add: opt_retryInterval_def)
  from assms(7) have "Suc (i - 1) = i" by simp
  then have "capped_delay (rounding r) (math_pow r) options (Suc (i - 1))
               = min (rounding r (to_number interval * math_pow r m (i - 1))) M"
    using assms(1-4)
    by (simp add: capped_delay_def opt_backoff_def opt_retryInterval_def
        opt_backoffMultiplier_def opt_maxDelay_def)
  then have "wait_after (rounding r) (math_pow r) options u (i - 1)
               = max 0 (min (rounding r (to_number interval * math_pow r m (i - 1))) M)" for u
    using assms(5) by (simp add: wait_after_def opt_jitter_def)
  with retry_timers [OF assms(6) i]
  have w: "?w = max 0 (min (rounding r (to_number interval * math_pow r m (i - 1))) M)" by simp
  have "?w = min (to_number interval * m ^ (i - 1)) M"
    if "0 \<le> m" "0 \<le> M" "math_pow r m (i - 1) = m ^ (i - 1)"
      "rounding r (to_number interval * m ^ (i - 1)) = to_number interval * m ^ (i - 1)"
  proof -
    from r0 that(1,2) have "0 \<le> min (to_number interval * m ^ (i - 1)) M" by simp
    with that(3,4) show ?thesis unfolding w by simp
  qed
  with w show ?thesis by blast
qed

lemmas retry_eval = retry_def retry_loop.simps attempt_once_def race_def shouldRetry_def
  capped_delay_def apply_jitter_def instanceof_def opt_backoff_def opt_backoffMultiplier_def
  opt_retryInterval_def opt_maxRetries_def opt_jitter_def opt_maxDelay_def opt_timeout_def Let_def
  rounded_pow_def

theorem backoff_delay_sequence_witness:
  "timers (snd (retry (Function always_fails) (Array [Extends ''NetworkError'' Error])
          \<lparr>backoff = Some True, backoffMultiplier = Some 3, retryInterval = Some (Number 100),
           maxRetries = Some (Number 3), jitter = Some 0, maxDelay = Some 500, timeout = None\<rparr>
          \<lparr>state = 0, invocations = 0, timers = [], math_random = (\<lambda>k. 1 / 4), drawn = 0, math_pow = rounded_pow, rounding = fl64\<rparr>)) ! (3 - 1)
    = min (100 * 3 ^ (3 - 1)) 500
   \<and> min (100 * 3 ^ (3 - 1)) 500 = (500::real)"
proof -
  let ?o = "\<lparr>backoff = Some True, backoffMultiplier = Some 3, retryInterval = Some (Number 100),
           maxRetries = Some (Number 3), jitter = Some 0, maxDelay = Some 500, timeout = None\<rparr>"
  let ?r = "\<lparr>state = 0::nat, invocations = 0, timers = [], math_random = (\<lambda>k. 1 / 4), drawn = 0, math_pow = rounded_pow, rounding = fl64\<rparr>"
  have len: "3 \<le> length (timers (snd (retry (Function always_fails)
                (Array [Extends ''NetworkError'' Error]) ?o ?r)))"
    by (simp add: retry_eval always_fails_def)
  have "timers (snd (retry (Function always_fails) (Array [Extends ''NetworkError'' Error]) ?o ?r)) ! (3 - 1)
           = max 0 (min (rounding ?r (to_number (Number 100) * math_pow ?r 3 (3 - 1))) 500)
     \<and> (0 \<le> (3::real) \<and> 0 \<le> (500::real) \<and> math_pow ?r 3 (3 - 1) = 3 ^ (3 - 1)
          \<and> rounding ?r (to_number (Number 100) * 3 ^ (3 - 1)) = to_number (Number 100) * 3 ^ (3 - 1)
        \<longrightarrow> timers (snd (retry (Function always_fails) (Array [Extends ''NetworkError'' Error]) ?o ?r)) ! (3 - 1)
              = min (to_number (Number 100) * 3 ^ (3 - 1)) 500)"
    by (rule backoff_delay_sequence [where i = 3 and interval = "Number 100", OF _ _ _ _ _ _ _ len]) simp_all
  then show ?thesis by (simp add: rounded_pow_def)
qed

text \<open>
  With \<^verbatim>\<open>retryInterval = 0.1\<close> (the double nearest to it) and \<^verbatim>\<open>backoffMultiplier = 3\<close>
  the second wait is the product rounded, \<^verbatim>\<open>0.30000000000000004\<close>, which is not the
  product.
\<close>

theorem backoff_delay_is_rounded:
  "timers (snd (retry (Function always_fails) (Array [])
          \<lparr>backoff = Some True, backoffMultiplier = Some 3,
           retryInterval = Some (Number (3602879701896397 / 36028797018963968)),
           maxRetries = Some (Number 2), jitter = Some 0, maxDelay = Some 30000, timeout = None\<rparr>
          \<lparr>state = 0, invocations = 0, timers = [], math_random = (\<lambda>k. 1 / 4), drawn = 0, math_pow = rounded_pow, rounding = fl64\<rparr>)) ! (2 - 1)
     = 1351079888211149 / 4503599627370496
   \<and> min (3602879701896397 / 36028797018963968 * 3 ^ (2 - 1)) 30000
     = (10808639105689191 / 36028797018963968 :: real)
   \<and> (1351079888211149 / 4503599627370496 :: real) \<noteq> 10808639105689191 / 36028797018963968"
proof -
  let ?o = "\<lparr>backoff = Some True, backoffMultiplier = Some 3,
           retryInterval = Some (Number (3602879701896397 / 36028797018963968)),
           maxRetries = Some (Number 2), jitter = Some 0, maxDelay = Some 30000, timeout = None\<rparr>"
  let ?r = "\<lparr>state = 0::nat, invocations = 0, timers = [], math_random = (\<lambda>k. 1 / 4), drawn = 0, math_pow = rounded_pow, rounding = fl64\<rparr>"
  let ?R = "retry (Function always_fails) (Array []) ?o ?r"
  have len: "1 < length (timers (snd ?R))"
    by (simp add: retry_eval always_fails_def)
  have t: "timers ?r = []" by simp
  have p: "fl64 (10808639105689191 / 36028797018963968) = 1351079888211149 / 4503599627370496"
    by (subst fl64_in_binade [where e = "- 2"]) (simp_all add: round_even_def)
  have "timers (snd ?R) ! 1 = wait_after (rounding ?r) (math_pow ?r) ?o
               (math_random ?r (if opt_jitter ?o > 0 then drawn ?r + 1 else drawn ?r)) 1"
    by (rule retry_timers [OF t len])
  also have "\<dots> = 1351079888211149 / 4503599627370496"
    by (simp add: wait_after_def capped_delay_def opt_jitter_def opt_backoff_def
        opt_retryInterval_def opt_backoffMultiplier_def opt_maxDelay_def rounded_pow_def p)
  finally show ?thesis by simp
qed

text \<open>
  C10. When the options leave out \<^verbatim>\<open>jitter\<close> it is 1, and the \<open>i\<close>-th wait of a run
  is \<^verbatim>\<open>delay + delay * jitter * Math.random() - (delay * jitter) / 2\<close> in the
  arithmetic of the engine, not below 0, for \<open>d\<close> the delay of the backoff and cap
  formula and \<open>u\<close> the value of \<^verbatim>\<open>Math.random()\<close>. When \<open>d = 0\<close> the wait is 0. When
  \<open>d\<close> is positive, \<open>0 \<le> u < 1\<close>, and \<open>d\<close>, \<open>2 * d\<close> and \<open>d / 2\<close> are doubles, the wait
  lies between \<open>d / 2\<close> and \<open>3 * d / 2\<close> rounded, both ends included.
\<close>

theorem default_jitter_delay:
  assumes "jitter options = None" and "timers r = []" and "1 \<le> i"
    and "i \<le> length (timers (snd (retry (Function f) (Array types) options r)))"
  shows "opt_jitter options = 1
     \<and> timers (snd (retry (Function f) (Array types) options r)) ! (i - 1)
         = max 0 (apply_jitter (rounding r) (capped_delay (rounding r) (math_pow r) options i) 1
                    (math_random r (drawn r + (i - 1))))
     \<and> (capped_delay (rounding r) (math_pow r) options i = 0 \<and> rounding r 0 = 0
         \<longrightarrow> timers (snd (retry (Function f) (Array types) options r)) ! (i - 1) = 0)
     \<and> (0 < capped_delay (rounding r) (math_pow r) options i
           \<and> 0 \<le> math_random r (drawn r + (i - 1)) \<and> math_random r (drawn r + (i - 1)) < 1
           \<and> mono (rounding r) \<and> rounding r 0 = 0
           \<and> rounding r (capped_delay (rounding r) (math_pow r) options i)
                = capped_delay (rounding r) (math_pow r) options i
           \<and> rounding r (2 * capped_delay (rounding r) (math_pow r) options i)
                = 2 * capped_delay (rounding r) (math_pow r) options i
           \<and> rounding r (capped_delay (rounding r) (math_pow r) options i / 2)
                = capped_delay (rounding r) (math_pow r) options i / 2
         \<longrightarrow> capped_delay (rounding r) (math_pow r) options i / 2
               \<le> timers (snd (retry (Function f) (Array types) options r)) ! (i - 1)
           \<and> timers (snd (retry (Function f) (Array types) options r)) ! (i - 1)
               \<le> rounding r (3 * capped_delay (rounding r) (math_pow r) options i / 2))"
proof -
  let ?w = "timers (snd (retry (Function f) (Array types) options r)) ! (i - 1)"
  let ?fl = "rounding r"
  let ?d = "capped_delay (rounding r) (math_pow r) options i"
  let ?u = "math_random r (drawn r + (i - 1))"
  from assms(1) have j: "opt_jitter options = 1" by (simp add: opt_jitter_def)
  from assms(3,4) have i: "i - 1 < length (timers (snd (retry (Function f) (Array types) options r)))"
    by simp
  from assms(3) have "Suc (i - 1) = i" by simp
  then have "wait_after ?fl (math_pow r) options ?u (i - 1) = max 0 (apply_jitter ?fl ?d 1 ?u)"
    by (simp add: wait_after_def j)
  with retry_timers [OF assms(2) i] j have w: "?w = max 0 (apply_jitter ?fl ?d 1 ?u)" by simp
  have zero: "?w = 0" if "?d = 0" "?fl 0 = 0"
    unfolding w using that by (simp add: apply_jitter_def)
  have range: "?d / 2 \<le> ?w \<and> ?w \<le> ?fl (3 * ?d / 2)"
    if d: "0 < ?d" and u: "0 \<le> ?u" "?u < 1" and m: "mono ?fl" and z: "?fl 0 = 0"
      and fd: "?fl ?d = ?d" and f2: "?fl (2 * ?d) = 2 * ?d" and fh: "?fl (?d / 2) = ?d / 2"
  proof -
    let ?a = "?fl (?fl (?d * 1) * ?u)"
    let ?s = "?fl (?d + ?a)"
    have a: "?fl (?d * 1) = ?d" using fd by simp
    have "0 \<le> ?d * ?u" using d u by simp
    then have "?fl 0 \<le> ?fl (?d * ?u)" using m by (rule monoD [rotated])
    then have a0: "0 \<le> ?a" using z a by simp
    have "?d * ?u \<le> ?d" using d u by simp
    then have "?fl (?d * ?u) \<le> ?fl ?d" using m by (rule monoD [rotated])
    then have a1: "?a \<le> ?d" using fd a by simp
    have "?fl ?d \<le> ?fl (?d + ?a)" using m a0 by (intro monoD [of ?fl]) simp_all
    then have s0: "?d \<le> ?s" using fd by simp
    have "?fl (?d + ?a) \<le> ?fl (2 * ?d)" using m a1 by (intro monoD [of ?fl]) simp_all
    then have s1: "?s \<le> 2 * ?d" using f2 by simp
    have h: "?fl (?fl (?d * 1) / 2) = ?d / 2" using a fh by simp
    have "?fl (?d / 2) \<le> ?fl (?s - ?d / 2)" using m s0 by (intro monoD [of ?fl]) simp_all
    then have lo: "?d / 2 \<le> ?fl (?s - ?d / 2)" using fh by simp
    have hi: "?fl (?s - ?d / 2) \<le> ?fl (3 * ?d / 2)"
      using m s1 by (intro monoD [of ?fl]) simp_all
    have "apply_jitter ?fl ?d 1 ?u = ?fl (?s - ?d / 2)"
      by (simp only: apply_jitter_def h)
    with lo hi d show ?thesis unfolding w by (simp add: max_def)
  qed
  from j w zero range show ?thesis by blast
qed

theorem default_jitter_delay_witness:
  "timers (snd (retry (Function always_fails) (Array [])
          \<lparr>backoff = None, backoffMultiplier = None, retryInterval = None,
           maxRetries = None, jitter = None, maxDelay = None, timeout = None\<rparr>
          \<lparr>state = 0, invocations = 0, timers = [], math_random = (\<lambda>k. 1 / 4), drawn = 0, math_pow = rounded_pow, rounding = fl64\<rparr>)) ! (2 - 1)
     = 1500
   \<and> (2000::real) / 2 \<le> 1500 \<and> (1500::real) \<le> fl64 (3 * 2000 / 2)"
proof -
  let ?o = "\<lparr>backoff = None, backoffMultiplier = None, retryInterval = None,
           maxRetries = None, jitter = None, maxDelay = None, timeout = None\<rparr>"
  let ?r = "\<lparr>state = 0::nat, invocations = 0, timers = [], math_random = (\<lambda>k. 1 / 4), drawn = 0, math_pow = rounded_pow, rounding = fl64\<rparr>"
  let ?w = "timers (snd (retry (Function always_fails) (Array []) ?o ?r)) ! (2 - 1)"
  have len: "2 \<le> length (timers (snd (retry (Function always_fails) (Array []) ?o ?r)))"
    by (simp add: retry_eval always_fails_def)
  have d: "capped_delay fl64 rounded_pow ?o 2 = 2000"
    by (simp add: capped_delay_def opt_backoff_def opt_retryInterval_def
        opt_backoffMultiplier_def opt_maxDelay_def rounded_pow_def)
  from default_jitter_delay [where i = 2 and options = ?o and r = ?r and f = always_fails
      and types = "[]", OF _ _ _ len]
  show ?thesis by (simp add: d mono_fl64 apply_jitter_def)
qed

text \<open>
  With \<^verbatim>\<open>retryInterval = 0\<close> and no \<^verbatim>\<open>jitter\<close> given, the delay of the formula is 0
  and every wait is 0, which is not in the empty range \<open>[0, 0)\<close>.
\<close>

theorem default_jitter_zero_interval:
  "capped_delay fl64 rounded_pow
      \<lparr>backoff = None, backoffMultiplier = None, retryInterval = Some (Number 0),
       maxRetries = None, jitter = None, maxDelay = None, timeout = None\<rparr> 1 = 0
   \<and> timers (snd (retry (Function always_fails) (Array [])
          \<lparr>backoff = None, backoffMultiplier = None, retryInterval = Some (Number 0),
           maxRetries = None, jitter = None, maxDelay = None, timeout = None\<rparr>
          \<lparr>state = 0, invocations = 0, timers = [], math_random = (\<lambda>k. 1 / 4), drawn = 0, math_pow = rounded_pow, rounding = fl64\<rparr>)) = [0, 0, 0]
   \<and> \<not> (capped_delay fl64 rounded_pow
             \<lparr>backoff = None, backoffMultiplier = None, retryInterval = Some (Number 0),
              maxRetries = None, jitter = None, maxDelay = None, timeout = None\<rparr> 1 / 2
          \<le> timers (snd (retry (Function always_fails) (Array [])
          \<lparr>backoff = None, backoffMultiplier = None, retryInterval = Some (Number 0),
           maxRetries = None, jitter = None, maxDelay = None, timeout = None\<rparr>
          \<lparr>state = 0, invocations = 0, timers = [], math_random = (\<lambda>k. 1 / 4), drawn = 0, math_pow = rounded_pow, rounding = fl64\<rparr>)) ! 0
        \<and> timers (snd (retry (Function always_fails) (Array [])
          \<lparr>backoff = None, backoffMultiplier = None, retryInterval = Some (Number 0),
           maxRetries = None, jitter = None, maxDelay = None, timeout = None\<rparr>
          \<lparr>state = 0, invocations = 0, timers = [], math_random = (\<lambda>k. 1 / 4), drawn = 0, math_pow = rounded_pow, rounding = fl64\<rparr>)) ! 0
          < 3 * capped_delay fl64 rounded_pow
             \<lparr>backoff = None, backoffMultiplier = None, retryInterval = Some (Number 0),
              maxRetries = None, jitter = None, maxDelay = None, timeout = None\<rparr> 1 / 2)"
  by (simp add: retry_eval always_fails_def)

text \<open>
  With the delay 1000 and \<^verbatim>\<open>Math.random()\<close> giving its largest value, the rounded
  jitter gives 1500: the upper end \<open>3 * d / 2\<close> of the range is reached.
\<close>

lemma jitter_reaches_upper_end: "apply_jitter fl64 1000 1 (1 - 1 / 2 ^ 53) = 1500"
proof -
  have 1: "fl64 (1125899906842623875 / 1125899906842624) = 8796093022207999 / 8796093022208"
    by (subst fl64_in_binade [where e = 9]) (simp_all add: round_even_def)
  have 2: "fl64 (17592186044415999 / 8796093022208) = 2000"
    by (subst fl64_in_binade [where e = 10]) (simp_all add: round_even_def)
  show ?thesis
    by (simp add: apply_jitter_def 1 2)
qed

section \<open>Properties of the handler\<close>

lemma subclass_of_refl: "subclass_of c c"
  by (cases c) simp_all

lemma retry_loop_rejects_retryable:
  "retry_loop f types options a r = (Inl e, r') \<Longrightarrow> shouldRetry types e \<Longrightarrow>
   \<exists>n. opt_maxRetries options = Number (real n) \<and> a \<le> n
       \<and> invocations r' = invocations r + (n - a) + 1
       \<and> state r' = (state_after f ^^ (n - a + 1)) (state r)
       \<and> attempt_result options f ((state_after f ^^ (n - a)) (state r)) = Inl e
       \<and> (\<forall>j\<le>n - a. \<exists>e'. attempt_result options f ((state_after f ^^ j) (state r)) = Inl e'
                              \<and> shouldRetry types e')"
proof (induction f types options a r rule: retry_loop.induct)
  case (1 f types options a r)
  show ?case
  proof (cases "real a \<le> to_number (opt_maxRetries options)")
    case False
    with "1.prems" show ?thesis by (simp add: retry_loop_exit)
  next
    case True
    note step = retry_loop_step [OF True, of f types r]
    from attempt_once_cases [of f types options a r]
    show ?thesis
    proof (elim disjE exE conjE)
      fix sres
      assume s: "attempt_once f types options a r
         = Settled sres (r\<lparr>state := state_after f (state r), invocations := Suc (invocations r)\<rparr>)"
        and c: "case sres of Inr v \<Rightarrow> \<exists>x. v = Some x \<and> attempt_result options f (state r) = Inr x
         | Inl e \<Rightarrow> attempt_result options f (state r) = Inl e
             \<and> (strictly_equals (real a) (opt_maxRetries options) \<or> \<not> shouldRetry types e)"
      from s step "1.prems"(1) have sres: "sres = Inl e"
        and r': "r' = r\<lparr>state := state_after f (state r), invocations := Suc (invocations r)\<rparr>"
        by simp_all
      with c "1.prems"(2) have ar: "attempt_result options f (state r) = Inl e"
        and "strictly_equals (real a) (opt_maxRetries options)" by simp_all
      then have "opt_maxRetries options = Number (real a)"
        by (cases "opt_maxRetries options") simp_all
      with r' ar "1.prems"(2) show ?thesis by (intro exI [of _ a]) auto
    next
      fix e'
      let ?r = "r\<lparr>state := state_after f (state r), invocations := Suc (invocations r),
                drawn := (if opt_jitter options > 0 then Suc (drawn r) else drawn r),
                timers := timers r @ [wait_after (rounding r) (math_pow r) options (math_random r (drawn r)) a]\<rparr>"
      assume w: "attempt_once f types options a r = Waited ?r"
        and e': "attempt_result options f (state r) = Inl e'" "shouldRetry types e'"
      with step "1.prems" have "retry_loop f types options (Suc a) ?r = (Inl e, r')" by simp
      from "1.IH" [OF True w this "1.prems"(2)]
      obtain n where n: "opt_maxRetries options = Number (real n)" "Suc a \<le> n"
        "invocations r' = invocations ?r + (n - Suc a) + 1"
        "state r' = (state_after f ^^ (n - Suc a + 1)) (state ?r)"
        "attempt_result options f ((state_after f ^^ (n - Suc a)) (state ?r)) = Inl e"
        "\<forall>j\<le>n - Suc a. \<exists>e'. attempt_result options f ((state_after f ^^ j) (state ?r)) = Inl e'
                              \<and> shouldRetry types e'"
        by blast
      from n(2) have d: "n - a = Suc (n - Suc a)" by simp
      have all: "\<exists>e'. attempt_result options f ((state_after f ^^ j) (state r)) = Inl e'
                              \<and> shouldRetry types e'" if "j \<le> n - a" for j
      proof (cases j)
        case 0
        with e' show ?thesis by auto
      next
        case (Suc j')
        with that d have "j' \<le> n - Suc a" by simp
        with n(6) Suc show ?thesis by (simp add: funpow_swap1)
      qed
      from n(1-5) all show ?thesis
        by (intro exI [of _ n]) (simp add: d funpow_swap1)
    qed
  qed
qed

lemma quote_and_choose_outcome:
  "fst (quote_and_choose createShipment vars) = quote_outcome createShipment (created vars)"
  by (simp add: quote_outcome_def quote_and_choose_def Let_def split: prod.splits sum.splits)

lemma search_attempt_result:
  "attempt_result (search_options env) (quote_and_choose createShipment) vars
     = quote_outcome createShipment (created vars)"
proof -
  have "opt_timeout (search_options env) = 0"
    by (simp add: opt_timeout_def search_options_def)
  then have "attempt_result (search_options env) (quote_and_choose createShipment) vars
               = fst (quote_and_choose createShipment vars)"
    by (simp add: attempt_result_def split: prod.splits)
  then show ?thesis by (simp add: quote_and_choose_outcome)
qed

lemma created_after:
  "created (state_after (quote_and_choose createShipment) vars) = Suc (created vars)"
  by (simp add: state_after_def quote_and_choose_def Let_def split: prod.splits sum.splits)

lemma created_funpow:
  "created ((state_after (quote_and_choose createShipment) ^^ j) vars) = created vars + j"
  by (induction j) (simp_all add: created_after)

lemma shipmentResponse_after:
  "createShipment (created vars) = (Inr shipment, elapsed) \<Longrightarrow>
   shipmentResponse (state_after (quote_and_choose createShipment) vars) = Some shipment"
  by (simp add: state_after_def quote_and_choose_def Let_def)

lemma search_quotes:
  "attempt_result (search_options env) (quote_and_choose createShipment)
     ((state_after (quote_and_choose createShipment) ^^ j) vars)
   = quote_outcome createShipment (created vars + j)"
  by (simp add: search_attempt_result created_funpow)

lemma retryable_no_suitable_rate:
  "shouldRetry [NoSuitableRatesError] e = instanceof e NoSuitableRatesError"
  by (auto simp: shouldRetry_def instanceof_def subclass_of_refl)

lemma search_rate_exhausted:
  assumes "SHIPPING_RATE_SEARCH_RETRIES env = None"
    and "\<forall>x. SHIPPING_RATE_SEARCH_RETRY_INTERVAL env = Some x \<longrightarrow> 0 \<le> x"
    and "\<forall>j\<le>3. \<exists>e. quote_outcome createShipment (created (state r) + j) = Inl e
                    \<and> instanceof e NoSuitableRatesError"
  shows "\<exists>e r'. quote_outcome createShipment (created (state r) + 3) = Inl e
           \<and> instanceof e NoSuitableRatesError
           \<and> search_rate env createShipment r = (Inl e, r')
           \<and> invocations r' = invocations r + 4
           \<and> created (state r') = created (state r) + 4
           \<and> (\<forall>shipment elapsed.
                 createShipment (created (state r) + 3) = (Inr shipment, elapsed)
                 \<longrightarrow> shipmentResponse (state r') = Some shipment)"
proof -
  let ?f = "quote_and_choose createShipment"
  let ?o = "search_options env"
  let ?L = "retry_loop ?f [NoSuitableRatesError] ?o 0 r"
  have mr: "opt_maxRetries ?o = Number (real (3::nat))"
    using assms(1) by (simp add: search_options_def opt_maxRetries_def)
  have "0 \<le> to_number (opt_retryInterval ?o)"
    using assms(2) by (cases "SHIPPING_RATE_SEARCH_RETRY_INTERVAL env")
      (simp_all add: search_options_def opt_retryInterval_def)
  moreover have "opt_jitter ?o = 1" by (simp add: search_options_def opt_jitter_def)
  ultimately have sr: "search_rate env createShipment r = ?L"
    using mr by (simp add: search_rate_def retry_def)
  have fails: "\<forall>j\<le>3. \<exists>e. attempt_result ?o ?f ((state_after ?f ^^ j) (state r)) = Inl e
                    \<and> shouldRetry [NoSuitableRatesError] e"
    using assms(3) by (simp add: search_quotes retryable_no_suitable_rate)
  have "0 + 3 = (3::nat)" by simp
  from retry_loop_failing_calls [OF mr this fails]
  obtain e where e: "attempt_result ?o ?f ((state_after ?f ^^ 3) (state r)) = Inl e"
      "fst ?L = Inl e"
    and inv: "invocations (snd ?L) = invocations r + 3 + 1"
    and st: "state (snd ?L) = (state_after ?f ^^ (3 + 1)) (state r)"
    by blast
  from e(1) have q: "quote_outcome createShipment (created (state r) + 3) = Inl e"
    by (simp add: search_quotes)
  with assms(3) have nsr: "instanceof e NoSuitableRatesError" by auto
  have "?L = (Inl e, snd ?L)" using e(2) by (simp flip: e(2))
  with sr have s: "search_rate env createShipment r = (Inl e, snd ?L)" by simp
  have c: "created (state (snd ?L)) = created (state r) + 4"
    unfolding st by (simp add: created_funpow)
  have last: "shipmentResponse (state (snd ?L)) = Some shipment"
    if "createShipment (created (state r) + 3) = (Inr shipment, elapsed)" for shipment elapsed
  proof -
    let ?v = "(state_after ?f ^^ 3) (state r)"
    have "created ?v = created (state r) + 3" by (rule created_funpow)
    with that have "createShipment (created ?v) = (Inr shipment, elapsed)" by simp
    then have "shipmentResponse (state_after ?f ?v) = Some shipment"
      by (rule shipmentResponse_after [of createShipment ?v shipment elapsed])
    moreover have "(state_after ?f ^^ (3 + 1)) (state r) = state_after ?f ?v"
      by (simp add: numeral_eq_Suc)
    ultimately show ?thesis unfolding st by simp
  qed
  from q nsr s inv c last show ?thesis by (intro exI [of _ e] exI [of _ "snd ?L"]) auto
qed

lemma search_rate_rejects_no_suitable_rate:
  assumes "search_rate env createShipment r = (Inl e, r')" and "instanceof e NoSuitableRatesError"
  shows "invocations r' = invocations r + 4
     \<and> (\<forall>j\<le>3. \<exists>e'. quote_outcome createShipment (created (state r) + j) = Inl e'
                    \<and> instanceof e' NoSuitableRatesError)"
proof -
  let ?f = "quote_and_choose createShipment"
  let ?o = "search_options env"
  have sr: "shouldRetry [NoSuitableRatesError] e"
    using assms(2) by (simp add: retryable_no_suitable_rate)
  have "retry (Function ?f) (Array [NoSuitableRatesError]) ?o r
          = retry_loop ?f [NoSuitableRatesError] ?o 0 r"
  proof (rule ccontr)
    assume "retry (Function ?f) (Array [NoSuitableRatesError]) ?o r
          \<noteq> retry_loop ?f [NoSuitableRatesError] ?o 0 r"
    then have "\<exists>m. fst (retry (Function ?f) (Array [NoSuitableRatesError]) ?o r)
             = Inl (Thrown RangeError m)"
      by (auto simp: retry_def split: if_splits)
    with assms show False by (auto simp: search_rate_def instanceof_def)
  qed
  with assms(1) have "retry_loop ?f [NoSuitableRatesError] ?o 0 r = (Inl e, r')"
    by (simp add: search_rate_def)
  from retry_loop_rejects_retryable [OF this sr]
  obtain n where n: "opt_maxRetries ?o = Number (real n)"
    "invocations r' = invocations r + (n - 0) + 1"
    "\<forall>j\<le>n - 0. \<exists>e'. attempt_result ?o ?f ((state_after ?f ^^ j) (state r)) = Inl e'
                              \<and> shouldRetry [NoSuitableRatesError] e'"
    by blast
  from n(1) have "n = 3"
    by (cases "SHIPPING_RATE_SEARCH_RETRIES env")
      (simp_all add: search_options_def opt_maxRetries_def)
  with n(2,3) show ?thesis
    by (simp add: search_quotes retryable_no_suitable_rate)
qed

lemma buy_step_result:
  assumes "buy_step chosen r fx = (res, r', fx')"
  shows "r' = r \<and> sent fx' = sent fx \<and> logged fx' = logged fx
         \<and> (\<forall>e. res = Inl e \<longrightarrow> constructor e = TypeError)"
  using assms by (auto simp: buy_step_def split: option.splits)

lemma purchase_label_on_rejection:
  assumes "search_rate env createShipment r = (Inl e, r')" and "instanceof e NoSuitableRatesError"
  shows "purchase_label env createShipment sendMail r =
          (let emailMessage =
                 \<lparr>listed_rates = (case shipmentResponse (state r') of
                                    None \<Rightarrow> None | Some shipment \<Rightarrow> rates shipment),
                  error_line = message e\<rparr>
           in if SEND_LIVE_EMAILS env = Some ''true''
              then ((case sendMail emailMessage of None \<Rightarrow> Inl e | Some mail_error \<Rightarrow> Inl mail_error),
                    r', \<lparr>sent = [emailMessage], logged = [], bought = []\<rparr>)
              else (Inl e, r', \<lparr>sent = [], logged = [emailMessage], bought = []\<rparr>))"
  using assms by (simp add: purchase_label_def Let_def split: option.splits)

lemma purchase_label_notifies_only_on_rejection:
  assumes "purchase_label env createShipment sendMail r = (res, r', fx)"
    and "sent fx \<noteq> [] \<or> logged fx \<noteq> [] \<or> (\<exists>e'. res = Inl e' \<and> instanceof e' NoSuitableRatesError)"
  shows "\<exists>e. search_rate env createShipment r = (Inl e, r') \<and> instanceof e NoSuitableRatesError"
proof -
  obtain sres sr where s: "search_rate env createShipment r = (sres, sr)"
    by (cases "search_rate env createShipment r")
  let ?fx = "\<lparr>sent = [], logged = [], bought = []\<rparr>"
  have quiet: False if b: "buy_step chosen sr ?fx = (res, r', fx)" for chosen
  proof -
    from buy_step_result [OF b] assms(2) show False
      by (auto simp: instanceof_def)
  qed
  show ?thesis
  proof (cases sres)
    case (Inr chosen)
    with assms(1) s have "buy_step chosen sr ?fx = (res, r', fx)"
      by (simp add: purchase_label_def)
    with quiet show ?thesis by blast
  next
    case (Inl e)
    show ?thesis
    proof (cases "instanceof e NoSuitableRatesError")
      case True
      with assms(1) s Inl have "r' = sr"
        by (auto simp: purchase_label_def Let_def split: option.splits if_splits)
      with s Inl True show ?thesis by simp
    next
      case False
      with assms(1) s Inl have "buy_step None sr ?fx = (res, r', fx)"
        by (simp add: purchase_label_def)
      with quiet show ?thesis by blast
    qed
  qed
qed

text \<open>
  C4. With \<^verbatim>\<open>SHIPPING_RATE_SEARCH_RETRIES\<close> not set (\<^verbatim>\<open>maxRetries\<close> is then 3) and a
  retry interval that is not negative: when all four attempts of the quoting fail with
  a \<^verbatim>\<open>NoSuitableRatesError\<close>, the retry rejects with the error of the fourth; the
  handler holds the response of the fourth call of \<^verbatim>\<open>createShipment\<close>, builds the
  message from its rates and the message of that error, gives it to \<^verbatim>\<open>sendMail\<close> when
  \<^verbatim>\<open>SEND_LIVE_EMAILS\<close> is \<^verbatim>\<open>"true"\<close> and only logs it otherwise, and throws that same
  error again (the error of \<^verbatim>\<open>sendMail\<close> when the sending fails); nothing is bought.
  A message is built, or a \<^verbatim>\<open>NoSuitableRatesError\<close> thrown to the caller, only when
  four attempts have been made and each has failed with a \<^verbatim>\<open>NoSuitableRatesError\<close>.
\<close>

theorem exhausted_search_notifies:
  "(SHIPPING_RATE_SEARCH_RETRIES env = None
      \<and> (\<forall>x. SHIPPING_RATE_SEARCH_RETRY_INTERVAL env = Some x \<longrightarrow> 0 \<le> x)
      \<and> (\<forall>j\<le>3. \<exists>e. quote_outcome createShipment (created (state r) + j) = Inl e
                     \<and> instanceof e NoSuitableRatesError)
    \<longrightarrow> (\<exists>e r'. quote_outcome createShipment (created (state r) + 3) = Inl e
           \<and> search_rate env createShipment r = (Inl e, r')
           \<and> invocations r' = invocations r + 4
           \<and> created (state r') = created (state r) + 4
           \<and> (\<forall>shipment elapsed.
                 createShipment (created (state r) + 3) = (Inr shipment, elapsed)
                 \<longrightarrow> shipmentResponse (state r') = Some shipment)
           \<and> purchase_label env createShipment sendMail r =
               (let emailMessage =
                      \<lparr>listed_rates = (case shipmentResponse (state r') of
                                         None \<Rightarrow> None | Some shipment \<Rightarrow> rates shipment),
                       error_line = message e\<rparr>
                in if SEND_LIVE_EMAILS env = Some ''true''
                   then ((case sendMail emailMessage of
                            None \<Rightarrow> Inl e | Some mail_error \<Rightarrow> Inl mail_error),
                         r', \<lparr>sent = [emailMessage], logged = [], bought = []\<rparr>)
                   else (Inl e, r', \<lparr>sent = [], logged = [emailMessage], bought = []\<rparr>))))
   \<and> (\<forall>res r' fx. purchase_label env createShipment sendMail r = (res, r', fx)
          \<and> (sent fx \<noteq> [] \<or> logged fx \<noteq> []
               \<or> (\<exists>e'. res = Inl e' \<and> instanceof e' NoSuitableRatesError))
        \<longrightarrow> invocations r' = invocations r + 4
          \<and> (\<forall>j\<le>3. \<exists>e. quote_outcome createShipment (created (state r) + j) = Inl e
                         \<and> instanceof e NoSuitableRatesError))"
proof (rule conjI, rule impI)
  assume a: "SHIPPING_RATE_SEARCH_RETRIES env = None
      \<and> (\<forall>x. SHIPPING_RATE_SEARCH_RETRY_INTERVAL env = Some x \<longrightarrow> 0 \<le> x)
      \<and> (\<forall>j\<le>3. \<exists>e. quote_outcome createShipment (created (state r) + j) = Inl e
                     \<and> instanceof e NoSuitableRatesError)"
  then have 1: "SHIPPING_RATE_SEARCH_RETRIES env = None"
    and 2: "\<forall>x. SHIPPING_RATE_SEARCH_RETRY_INTERVAL env = Some x \<longrightarrow> 0 \<le> x"
    and 3: "\<forall>j\<le>3. \<exists>e. quote_outcome createShipment (created (state r) + j) = Inl e
                     \<and> instanceof e NoSuitableRatesError"
    by blast+
  from search_rate_exhausted [OF 1 2 3]
  obtain e r' where x: "quote_outcome createShipment (created (state r) + 3) = Inl e"
      "instanceof e NoSuitableRatesError"
      "search_rate env createShipment r = (Inl e, r')"
      "invocations r' = invocations r + 4"
      "created (state r') = created (state r) + 4"
      "\<forall>shipment elapsed.
                 createShipment (created (state r) + 3) = (Inr shipment, elapsed)
                 \<longrightarrow> shipmentResponse (state r') = Some shipment"
    by blast
  note p = purchase_label_on_rejection [OF x(3) x(2), of sendMail]
  from x(1,3,4,5,6) p
  show "\<exists>e r'. quote_outcome createShipment (created (state r) + 3) = Inl e
           \<and> search_rate env createShipment r = (Inl e, r')
           \<and> invocations r' = invocations r + 4
           \<and> created (state r') = created (state r) + 4
           \<and> (\<forall>shipment elapsed.
                 createShipment (created (state r) + 3) = (Inr shipment, elapsed)
                 \<longrightarrow> shipmentResponse (state r') = Some shipment)
           \<and> purchase_label env createShipment sendMail r =
               (let emailMessage =
                      \<lparr>listed_rates = (case shipmentResponse (state r') of
                                         None \<Rightarrow> None | Some shipment \<Rightarrow> rates shipment),
                       error_line = message e\<rparr>
                in if SEND_LIVE_EMAILS env = Some ''true''
                   then ((case sendMail emailMessage of
                            None \<Rightarrow> Inl e | Some mail_error \<Rightarrow> Inl mail_error),
                         r', \<lparr>sent = [emailMessage], logged = [], bought = []\<rparr>)
                   else (Inl e, r', \<lparr>sent = [], logged = [emailMessage], bought = []\<rparr>))"
    by (intro exI [of _ e] exI [of _ r'] conjI)
next
  show "\<forall>res r' fx. purchase_label env createShipment sendMail r = (res, r', fx)
          \<and> (sent fx \<noteq> [] \<or> logged fx \<noteq> []
               \<or> (\<exists>e'. res = Inl e' \<and> instanceof e' NoSuitableRatesError))
        \<longrightarrow> invocations r' = invocations r + 4
          \<and> (\<forall>j\<le>3. \<exists>e. quote_outcome createShipment (created (state r) + j) = Inl e
                         \<and> instanceof e NoSuitableRatesError)"
  proof (intro allI impI)
  fix res r' fx
  assume a: "purchase_label env createShipment sendMail r = (res, r', fx)
          \<and> (sent fx \<noteq> [] \<or> logged fx \<noteq> []
               \<or> (\<exists>e'. res = Inl e' \<and> instanceof e' NoSuitableRatesError))"
  then obtain e where "search_rate env createShipment r = (Inl e, r')"
      "instanceof e NoSuitableRatesError"
    using purchase_label_notifies_only_on_rejection by blast
  from search_rate_rejects_no_suitable_rate [OF this]
  show "invocations r' = invocations r + 4
     \<and> (\<forall>j\<le>3. \<exists>e. quote_outcome createShipment (created (state r) + j) = Inl e
                    \<and> instanceof e NoSuitableRatesError)" .
  qed
qed

lemmas handler_eval = purchase_label_def search_rate_def search_options_def quote_and_choose_def
  buy_step_def start_def rules_def ratesFor2DaysOrLess_def chosenRate_def first_id_def
  msort.simps dearer_def

theorem exhausted_search_notifies_witness:
  "fst (purchase_label
     \<lparr>SHIPPING_RATE_SEARCH_RETRIES = None, SHIPPING_RATE_SEARCH_RETRY_INTERVAL = None,
      SEND_LIVE_EMAILS = Some ''true''\<rparr>
     varying_quotes (\<lambda>m. None) (start (\<lambda>k. 1 / 4)))
     = Inl (Thrown NoSuitableRatesError ''No rates for 2 days or less'')
   \<and> snd (snd (purchase_label
     \<lparr>SHIPPING_RATE_SEARCH_RETRIES = None, SHIPPING_RATE_SEARCH_RETRY_INTERVAL = None,
      SEND_LIVE_EMAILS = Some ''true''\<rparr>
     varying_quotes (\<lambda>m. None) (start (\<lambda>k. 1 / 4))))
     = \<lparr>sent = [\<lparr>listed_rates = Some [\<lparr>quote_id = ''rate_1'', carrier = ''FedEx'',
                                         service = ''Ground'', rate = 8, delivery_days = 5\<rparr>],
                 error_line = ''No rates for 2 days or less''\<rparr>],
        logged = [], bought = []\<rparr>"
proof -
  let ?env = "\<lparr>SHIPPING_RATE_SEARCH_RETRIES = None, SHIPPING_RATE_SEARCH_RETRY_INTERVAL = None,
      SEND_LIVE_EMAILS = Some ''true''\<rparr>"
  let ?r = "start (\<lambda>k. 1 / 4)"
  let ?e = "Thrown NoSuitableRatesError ''No rates for 2 days or less''"
  let ?s = "\<lparr>shipment_id = ''shp_1'',
           rates = Some [\<lparr>quote_id = ''rate_1'', carrier = ''FedEx'', service = ''Ground'',
                          rate = 8, delivery_days = 5\<rparr>],
           usps_zone = 4\<rparr>"
  have q: "quote_outcome varying_quotes k = Inl ?e" for k
    by (simp add: quote_outcome_def quote_and_choose_def varying_quotes_def rules_def
        ratesFor2DaysOrLess_def)
  have h: "SHIPPING_RATE_SEARCH_RETRIES ?env = None
      \<and> (\<forall>x. SHIPPING_RATE_SEARCH_RETRY_INTERVAL ?env = Some x \<longrightarrow> 0 \<le> x)
      \<and> (\<forall>j\<le>3. \<exists>e. quote_outcome varying_quotes (created (state ?r) + j) = Inl e
                     \<and> instanceof e NoSuitableRatesError)"
    by (simp add: q instanceof_def)
  have last: "varying_quotes (created (state ?r) + 3) = (Inr ?s, 200)"
    by (simp add: varying_quotes_def start_def)
  from exhausted_search_notifies [of ?env varying_quotes ?r "\<lambda>m. None"] h
  obtain e r' where x: "quote_outcome varying_quotes (created (state ?r) + 3) = Inl e"
      "\<forall>shipment elapsed.
                 varying_quotes (created (state ?r) + 3) = (Inr shipment, elapsed)
                 \<longrightarrow> shipmentResponse (state r') = Some shipment"
      "purchase_label ?env varying_quotes (\<lambda>m. None) ?r =
               (let emailMessage =
                      \<lparr>listed_rates = (case shipmentResponse (state r') of
                                         None \<Rightarrow> None | Some shipment \<Rightarrow> rates shipment),
                       error_line = message e\<rparr>
                in if SEND_LIVE_EMAILS ?env = Some ''true''
                   then ((case (\<lambda>m. None) emailMessage of
                            None \<Rightarrow> Inl e | Some mail_error \<Rightarrow> Inl mail_error),
                         r', \<lparr>sent = [emailMessage], logged = [], bought = []\<rparr>)
                   else (Inl e, r', \<lparr>sent = [], logged = [emailMessage], bought = []\<rparr>))"
    by blast
  from x(1) have e: "e = ?e" by (simp add: q)
  from x(2) last have "shipmentResponse (state r') = Some ?s" by blast
  with x(3) e show ?thesis by (simp add: Let_def)
qed

text \<open>
  All four attempts find no suitable rate and \<^verbatim>\<open>SEND_LIVE_EMAILS\<close> is not set: the
  handler throws the \<^verbatim>\<open>NoSuitableRatesError\<close> of the last attempt, and no message
  has been given to \<^verbatim>\<open>sendMail\<close>.
\<close>

theorem no_mail_without_live_emails:
  "purchase_label
     \<lparr>SHIPPING_RATE_SEARCH_RETRIES = None, SHIPPING_RATE_SEARCH_RETRY_INTERVAL = None,
      SEND_LIVE_EMAILS = None\<rparr>
     slow_quotes (\<lambda>m. None) (start (\<lambda>k. 1 / 4))
   = (Inl (Thrown NoSuitableRatesError ''No rates for 2 days or less''),
      \<lparr>state = \<lparr>shipmentResponse = Some slow_shipment, created = 4\<rparr>,
       invocations = 4, timers = [750, 750, 750], math_random = (\<lambda>k. 1 / 4), drawn = 3, math_pow = rounded_pow, rounding = fl64\<rparr>,
      \<lparr>sent = [],
       logged = [\<lparr>listed_rates = rates slow_shipment,
                  error_line = ''No rates for 2 days or less''\<rparr>],
       bought = []\<rparr>)"
  by (simp add: handler_eval retry_eval slow_quotes_def slow_shipment_def)

text \<open>
  When \<^verbatim>\<open>SHIPPING_RATE_SEARCH_RETRIES\<close> is set, \<^verbatim>\<open>maxRetries\<close> is a string and
  \<^verbatim>\<open>attempt === maxRetries\<close> never holds: the retried quoting does not reject with a
  \<^verbatim>\<open>NoSuitableRatesError\<close>.
\<close>

lemma retries_from_environment:
  assumes "SHIPPING_RATE_SEARCH_RETRIES env = Some x"
    and "search_rate env createShipment r = (Inl e, r')"
  shows "\<not> instanceof e NoSuitableRatesError"
proof
  let ?f = "quote_and_choose createShipment"
  let ?o = "search_options env"
  assume nsr: "instanceof e NoSuitableRatesError"
  then have sr: "shouldRetry [NoSuitableRatesError] e"
    by (simp add: retryable_no_suitable_rate)
  have "retry (Function ?f) (Array [NoSuitableRatesError]) ?o r
          = retry_loop ?f [NoSuitableRatesError] ?o 0 r"
  proof (rule ccontr)
    assume "retry (Function ?f) (Array [NoSuitableRatesError]) ?o r
          \<noteq> retry_loop ?f [NoSuitableRatesError] ?o 0 r"
    then have "\<exists>m. fst (retry (Function ?f) (Array [NoSuitableRatesError]) ?o r)
             = Inl (Thrown RangeError m)"
      by (auto simp: retry_def split: if_splits)
    with assms(2) nsr show False by (auto simp: search_rate_def instanceof_def)
  qed
  with assms(2) have "retry_loop ?f [NoSuitableRatesError] ?o 0 r = (Inl e, r')"
    by (simp add: search_rate_def)
  from retry_loop_rejects_retryable [OF this sr]
  obtain n where "opt_maxRetries ?o = Number (real n)" by blast
  with assms(1) show False
    by (simp add: search_options_def opt_maxRetries_def)
qed

lemma exhaustion_with_retries_set:
  "purchase_label
     \<lparr>SHIPPING_RATE_SEARCH_RETRIES = Some 3, SHIPPING_RATE_SEARCH_RETRY_INTERVAL = Some 1000,
      SEND_LIVE_EMAILS = Some ''true''\<rparr>
     slow_quotes (\<lambda>m. None) (start (\<lambda>k. 1 / 4))
   = (Inl (Thrown TypeError ''undefined is not an object (evaluating chosenRate.id)''),
      \<lparr>state = \<lparr>shipmentResponse = Some slow_shipment, created = 4\<rparr>,
       invocations = 4, timers = [750, 750, 750, 750], math_random = (\<lambda>k. 1 / 4), drawn = 4, math_pow = rounded_pow, rounding = fl64\<rparr>,
      \<lparr>sent = [], logged = [], bought = []\<rparr>)"
  by (simp add: handler_eval retry_eval slow_quotes_def slow_shipment_def)

text \<open>
  C2. The quoting service refuses the connection: the retried quoting rejects with that
  error, which is not a \<^verbatim>\<open>NoSuitableRatesError\<close>, after one call. The \<^verbatim>\<open>catch\<close> of
  the handler does not throw it again; the handler goes on to the purchase, where
  reading \<^verbatim>\<open>shipmentResponse.id\<close> throws a \<^verbatim>\<open>TypeError\<close>, and that is the error its
  caller gets.
\<close>

theorem other_failure_is_swallowed:
  "search_rate
     \<lparr>SHIPPING_RATE_SEARCH_RETRIES = None, SHIPPING_RATE_SEARCH_RETRY_INTERVAL = None,
      SEND_LIVE_EMAILS = Some ''true''\<rparr>
     api_down (start (\<lambda>k. 1 / 4))
   = (Inl (Thrown Error ''connect ECONNREFUSED''),
      \<lparr>state = \<lparr>shipmentResponse = None, created = 1\<rparr>,
       invocations = 1, timers = [], math_random = (\<lambda>k. 1 / 4), drawn = 0, math_pow = rounded_pow, rounding = fl64\<rparr>)
   \<and> purchase_label
     \<lparr>SHIPPING_RATE_SEARCH_RETRIES = None, SHIPPING_RATE_SEARCH_RETRY_INTERVAL = None,
      SEND_LIVE_EMAILS = Some ''true''\<rparr>
     api_down (\<lambda>m. None) (start (\<lambda>k. 1 / 4))
   = (Inl (Thrown TypeError ''undefined is not an object (evaluating shipmentResponse.id)''),
      \<lparr>state = \<lparr>shipmentResponse = None, created = 1\<rparr>,
       invocations = 1, timers = [], math_random = (\<lambda>k. 1 / 4), drawn = 0, math_pow = rounded_pow, rounding = fl64\<rparr>,
      \<lparr>sent = [], logged = [], bought = []\<rparr>)"
  by (simp add: handler_eval retry_eval api_down_def)

end
